theory Spec2Isabelle
  imports Main "HOL-Library.Multiset"
begin

section \<open>Data model (src/types/index.ts)\<close>

text \<open>
  State ids, selectors, urls and hashes are JavaScript strings. The two string unions
  \<^verbatim>\<open>ElementType\<close> and \<^verbatim>\<open>ActionType\<close> are enumerations. Record fields carry a short
  prefix because several interfaces of the source share field names (\<^verbatim>\<open>id\<close>, \<^verbatim>\<open>type\<close>,
  \<^verbatim>\<open>stateId\<close>).
\<close>

datatype ElementType = ElButton | ElLink | ElInput | ElCheckbox | ElSelect

datatype ActionType = Click | Input | Submit | Select | Check

record InteractiveElement =
  el_selector :: string
  el_type :: ElementType
  el_label :: string
  el_tagName :: string
  el_attributes :: "(string \<times> string) list"

record Action =
  act_type :: ActionType
  elementSelector :: string
  elementLabel :: string
  act_value :: "string option"

record AppState =
  state_id :: string
  state_url :: string
  state_domHash :: string
  state_description :: string
  state_elements :: "InteractiveElement list"
  state_timestamp :: nat

record StateTransition =
  trans_id :: string
  fromStateId :: string
  toStateId :: string
  action :: Action

record ExplorationQueueItem =
  item_stateId :: string
  item_action :: Action
  item_pathFromRoot :: "string list"

section \<open>State graph (src/graph/StateGraph.ts)\<close>

text \<open>
  The class keeps \<^verbatim>\<open>states: Map<string, AppState>\<close>, always written as
  \<^verbatim>\<open>states.set(state.id, state)\<close>, so the map is the list of its values in insertion order
  and the key of a value is its own id. \<^verbatim>\<open>transitions\<close> is an array and \<^verbatim>\<open>entryStateId\<close>
  a string that starts as the empty string.
\<close>

record StateGraph =
  graph_states :: "AppState list"
  graph_transitions :: "StateTransition list"
  graph_entryStateId :: string

definition newStateGraph :: StateGraph where
  "newStateGraph = \<lparr>graph_states = [], graph_transitions = [], graph_entryStateId = []\<rparr>"

definition graph_has :: "StateGraph \<Rightarrow> string \<Rightarrow> bool" where
  "graph_has g i = (i \<in> set (map state_id (graph_states g)))"

definition graph_getState :: "StateGraph \<Rightarrow> string \<Rightarrow> AppState option" where
  "graph_getState g i = find (\<lambda>s. state_id s = i) (graph_states g)"

definition addState :: "AppState \<Rightarrow> StateGraph \<Rightarrow> StateGraph" where
  "addState s g =
     (if \<not> graph_has g (state_id s) then g\<lparr>graph_states := graph_states g @ [s]\<rparr> else g)"

text \<open>The predicate of the \<^verbatim>\<open>some\<close> call in \<^verbatim>\<open>addTransition\<close>.\<close>

definition sameTransition :: "StateTransition \<Rightarrow> StateTransition \<Rightarrow> bool" where
  "sameTransition transition t =
     (fromStateId t = fromStateId transition \<and>
      toStateId t = toStateId transition \<and>
      elementSelector (action t) = elementSelector (action transition) \<and>
      act_type (action t) = act_type (action transition))"

definition addTransition :: "StateTransition \<Rightarrow> StateGraph \<Rightarrow> StateGraph" where
  "addTransition transition g =
     (let exists = list_ex (sameTransition transition) (graph_transitions g) in
      if \<not> exists then g\<lparr>graph_transitions := graph_transitions g @ [transition]\<rparr> else g)"

definition setEntryState :: "string \<Rightarrow> StateGraph \<Rightarrow> StateGraph" where
  "setEntryState stateId g = g\<lparr>graph_entryStateId := stateId\<rparr>"

definition getTransitionsFrom :: "StateTransition list \<Rightarrow> string \<Rightarrow> StateTransition list" where
  "getTransitionsFrom ts stateId = filter (\<lambda>t. fromStateId t = stateId) ts"

definition getTransitionsTo :: "StateTransition list \<Rightarrow> string \<Rightarrow> StateTransition list" where
  "getTransitionsTo ts stateId = filter (\<lambda>t. toStateId t = stateId) ts"

subsection \<open>Path search\<close>

text \<open>\<^verbatim>\<open>Array.prototype.join\<close> with a separator.\<close>

fun join :: "string \<Rightarrow> string list \<Rightarrow> string" where
  "join sep [] = []"
| "join sep [x] = x"
| "join sep (x # y # ys) = x @ sep @ join sep (y # ys)"

text \<open>
  The local variables of \<^verbatim>\<open>findPathsTo\<close>: the work queue of \<^verbatim>\<open>{stateId, path}\<close> items,
  the set of visited path keys and the paths collected so far.
\<close>

record search =
  queue :: "(string \<times> string list) list"
  visited :: "string set"
  allPaths :: "string list list"

text \<open>
  One iteration of the \<^verbatim>\<open>while\<close> loop: \<^verbatim>\<open>queue.shift()\<close>, then either the path is
  collected, or its key was visited, or its successors are pushed.
\<close>

definition searchStep :: "StateTransition list \<Rightarrow> string \<Rightarrow> search \<Rightarrow> search" where
  "searchStep ts targetStateId s =
     (case queue s of
        [] \<Rightarrow> s
      | (stateId, path) # rest \<Rightarrow>
          if stateId = targetStateId
          then s\<lparr>queue := rest, allPaths := allPaths s @ [path]\<rparr>
          else
            let pathKey = join ''->'' path in
            if pathKey \<in> visited s then s\<lparr>queue := rest\<rparr>
            else
              let outgoing = getTransitionsFrom ts stateId in
              s\<lparr>queue := rest @
                     map (\<lambda>t. (toStateId t, path @ [toStateId t]))
                       (filter (\<lambda>t. toStateId t \<notin> set path \<or> toStateId t = targetStateId)
                          outgoing),
                 visited := insert pathKey (visited s)\<rparr>)"

definition searchGuard :: "nat \<Rightarrow> search \<Rightarrow> bool" where
  "searchGuard maxPaths s = (queue s \<noteq> [] \<and> length (allPaths s) < maxPaths)"

text \<open>
  The termination argument: an item that is not at the target weighs one more than the
  number of transition targets outside its path, an item at the target weighs nothing.
  Every pushed successor weighs less than the item it replaces.
\<close>

definition itemWeight :: "StateTransition list \<Rightarrow> string \<Rightarrow> string \<times> string list \<Rightarrow> nat" where
  "itemWeight ts targetStateId it =
     (if fst it = targetStateId then 0
      else Suc (card (toStateId ` set ts - set (snd it))))"

lemma searchStep_decreases:
  assumes "queue s \<noteq> []"
  shows "(image_mset (itemWeight ts tg) (mset (queue (searchStep ts tg s))),
          image_mset (itemWeight ts tg) (mset (queue s))) \<in> mult less_than"
proof -
  obtain stateId path rest where q: "queue s = (stateId, path) # rest"
    using assms by (cases "queue s") auto
  let ?w = "itemWeight ts tg"
  let ?I = "image_mset ?w (mset rest)"
  let ?kids = "map (\<lambda>t. (toStateId t, path @ [toStateId t]))
                 (filter (\<lambda>t. toStateId t \<notin> set path \<or> toStateId t = tg)
                    (getTransitionsFrom ts stateId))"
  have small: "?w k < ?w (stateId, path)" if "k \<in> set ?kids" "stateId \<noteq> tg" for k
  proof -
    from that obtain t where t: "t \<in> set ts" "k = (toStateId t, path @ [toStateId t])"
      "toStateId t \<notin> set path \<or> toStateId t = tg"
      by (auto simp: getTransitionsFrom_def)
    show ?thesis
    proof (cases "toStateId t = tg")
      case True
      then show ?thesis using t that by (simp add: itemWeight_def)
    next
      case False
      then have notin: "toStateId t \<notin> set path" using t by simp
      have "toStateId ` set ts - set (path @ [toStateId t])
              \<subset> toStateId ` set ts - set path"
        using t(1) notin by auto
      then have "card (toStateId ` set ts - set (path @ [toStateId t]))
                   < card (toStateId ` set ts - set path)"
        by (intro psubset_card_mono) auto
      then show ?thesis using t that False by (simp add: itemWeight_def)
    qed
  qed
  have one: "(?I + K, ?I + {#?w (stateId, path)#}) \<in> mult less_than"
    if "\<forall>k \<in> set_mset K. k < ?w (stateId, path)" for K
    using that by (intro one_step_implies_mult) auto
  show ?thesis
  proof (cases "stateId = tg")
    case True
    then show ?thesis using q one [of "{#}"] by (simp add: searchStep_def)
  next
    case False
    show ?thesis
    proof (cases "join ''->'' path \<in> visited s")
      case True
      then show ?thesis using q False one [of "{#}"] by (simp add: searchStep_def)
    next
      case nv: False
      have "\<forall>k \<in> set_mset (image_mset ?w (mset ?kids)). k < ?w (stateId, path)"
        using small False by auto
      from one [OF this] show ?thesis
        using q False nv by (simp add: searchStep_def Let_def)
    qed
  qed
qed

function searchLoop :: "StateTransition list \<Rightarrow> string \<Rightarrow> nat \<Rightarrow> search \<Rightarrow> string list list" where
  "searchLoop ts targetStateId maxPaths s =
     (if searchGuard maxPaths s
      then searchLoop ts targetStateId maxPaths (searchStep ts targetStateId s)
      else allPaths s)"
  by pat_completeness auto
termination
proof (relation "inv_image (mult less_than)
    (\<lambda>(ts, tg, mp, s). image_mset (itemWeight ts tg) (mset (queue s)))")
  show "wf (inv_image (mult less_than)
    (\<lambda>(ts, tg, mp, s). image_mset (itemWeight ts tg) (mset (queue s))))"
    by (intro wf_inv_image wf_mult wf_less_than)
next
  fix ts :: "StateTransition list" and targetStateId :: string and maxPaths :: nat
    and s :: search
  assume "searchGuard maxPaths s"
  then have "queue s \<noteq> []" by (simp add: searchGuard_def)
  from searchStep_decreases [OF this]
  show "((ts, targetStateId, maxPaths, searchStep ts targetStateId s),
         (ts, targetStateId, maxPaths, s))
        \<in> inv_image (mult less_than)
            (\<lambda>(ts, tg, mp, s). image_mset (itemWeight ts tg) (mset (queue s)))"
    by simp
qed

declare searchLoop.simps [simp del]

text \<open>
  \<^verbatim>\<open>findPathsTo\<close> occurs twice in the source with the same body:
  \<^verbatim>\<open>StateGraph.findPathsTo\<close> (default \<^verbatim>\<open>maxPaths = 3\<close>) reads the graph's own entry state
  id, \<^verbatim>\<open>InteractiveExplorer.findPathsTo\<close> (default \<^verbatim>\<open>maxPaths = 1\<close>) reads the controller's.
  Both are instances of \<open>findPaths\<close>.
\<close>

definition searchInit :: "string \<Rightarrow> search" where
  "searchInit entry = \<lparr>queue = [(entry, [entry])], visited = {}, allPaths = []\<rparr>"

definition findPaths :: "string \<Rightarrow> StateTransition list \<Rightarrow> string \<Rightarrow> nat \<Rightarrow> string list list" where
  "findPaths entry ts targetStateId maxPaths =
     (if targetStateId = entry then [[entry]]
      else searchLoop ts targetStateId maxPaths (searchInit entry))"

definition graph_findPathsTo :: "StateGraph \<Rightarrow> string \<Rightarrow> nat \<Rightarrow> string list list" where
  "graph_findPathsTo g targetStateId maxPaths =
     findPaths (graph_entryStateId g) (graph_transitions g) targetStateId maxPaths"

text \<open>
  \<^verbatim>\<open>computePaths\<close> builds a \<^verbatim>\<open>Record<string, string[][]>\<close>: a finite map from state id to
  the paths found for it. The empty string is the only falsy string.
\<close>

definition computePaths :: "StateGraph \<Rightarrow> (string \<rightharpoonup> string list list)" where
  "computePaths g =
     (if graph_entryStateId g = [] then Map.empty
      else foldl (\<lambda>paths state. paths(state_id state \<mapsto> graph_findPathsTo g (state_id state) 3))
             Map.empty (graph_states g))"

section \<open>State identity (src/explorer/StateManager.ts)\<close>

text \<open>
  What one call of \<^verbatim>\<open>captureState(page, elements)\<close> reads from outside the class:
  \<^verbatim>\<open>page.url()\<close>, the hash computed by \<^verbatim>\<open>computeDomHash(page)\<close>, the text returned by
  \<^verbatim>\<open>generateDescription(page)\<close>, the \<^verbatim>\<open>elements\<close> argument and \<^verbatim>\<open>Date.now()\<close>.
\<close>

record Snapshot =
  snap_url :: string
  snap_domHash :: string
  snap_description :: string
  snap_elements :: "InteractiveElement list"
  snap_now :: nat

text \<open>
  \<^verbatim>\<open>states\<close> is a \<^verbatim>\<open>Map\<close> keyed by the state's own id (a list of values in insertion
  order), \<^verbatim>\<open>exploredActions\<close> maps a state id to its set of action keys.
\<close>

record StateManager =
  mgr_states :: "AppState list"
  mgr_stateCounter :: nat
  mgr_exploredActions :: "string \<rightharpoonup> string set"

definition newStateManager :: StateManager where
  "newStateManager = \<lparr>mgr_states = [], mgr_stateCounter = 0, mgr_exploredActions = Map.empty\<rparr>"

text \<open>\<^verbatim>\<open>String(n)\<close> for a natural number, and \<^verbatim>\<open>padStart\<close>.\<close>

definition digitChar :: "nat \<Rightarrow> char" where
  "digitChar d = char_of (48 + d)"

fun stringOfNat :: "nat \<Rightarrow> string" where
  "stringOfNat n = (if n < 10 then [digitChar n] else stringOfNat (n div 10) @ [digitChar (n mod 10)])"

declare stringOfNat.simps [simp del]

definition padStart :: "nat \<Rightarrow> char \<Rightarrow> string \<Rightarrow> string" where
  "padStart len c s = replicate (len - length s) c @ s"

definition mkStateId :: "nat \<Rightarrow> string" where
  "mkStateId n = ''state_'' @ padStart 3 (CHR ''0'') (stringOfNat n)"

text \<open>
  \<^verbatim>\<open>Map.prototype.set\<close> on the list of values: an existing key keeps its position, a new
  key goes to the end.
\<close>

fun mapSet :: "AppState \<Rightarrow> AppState list \<Rightarrow> AppState list" where
  "mapSet s [] = [s]"
| "mapSet s (x # xs) = (if state_id x = state_id s then s # xs else x # mapSet s xs)"

text \<open>
  \<^verbatim>\<open>new URL(url).pathname\<close> is the platform's URL parser; it is the parameter \<open>pathname\<close>
  of every function that computes a state key.
\<close>

definition computeStateKey :: "(string \<Rightarrow> string) \<Rightarrow> string \<Rightarrow> string \<Rightarrow> string" where
  "computeStateKey pathname url domHash = (let urlPath = pathname url in urlPath @ '':'' @ domHash)"

definition findStateByKey :: "(string \<Rightarrow> string) \<Rightarrow> StateManager \<Rightarrow> string \<Rightarrow> AppState option" where
  "findStateByKey pathname m stateKey =
     find (\<lambda>state. computeStateKey pathname (state_url state) (state_domHash state) = stateKey)
       (mgr_states m)"

definition captureState :: "(string \<Rightarrow> string) \<Rightarrow> Snapshot \<Rightarrow> StateManager \<Rightarrow> AppState \<times> StateManager" where
  "captureState pathname snap m =
     (let stateKey = computeStateKey pathname (snap_url snap) (snap_domHash snap) in
      case findStateByKey pathname m stateKey of
        Some existingState \<Rightarrow> (existingState, m)
      | None \<Rightarrow>
          let counter = Suc (mgr_stateCounter m);
              state = \<lparr>state_id = mkStateId counter,
                       state_url = snap_url snap,
                       state_domHash = snap_domHash snap,
                       state_description = snap_description snap,
                       state_elements = snap_elements snap,
                       state_timestamp = snap_now snap\<rparr>
          in (state,
              m\<lparr>mgr_stateCounter := counter,
                mgr_states := mapSet state (mgr_states m),
                mgr_exploredActions := (mgr_exploredActions m)(state_id state \<mapsto> {})\<rparr>))"

definition isStateKnown :: "StateManager \<Rightarrow> string \<Rightarrow> bool" where
  "isStateKnown m stateId = (stateId \<in> set (map state_id (mgr_states m)))"

definition mgr_getState :: "StateManager \<Rightarrow> string \<Rightarrow> AppState option" where
  "mgr_getState m stateId = find (\<lambda>s. state_id s = stateId) (mgr_states m)"

fun actionTypeString :: "ActionType \<Rightarrow> string" where
  "actionTypeString Click = ''click''"
| "actionTypeString Input = ''input''"
| "actionTypeString Submit = ''submit''"
| "actionTypeString Select = ''select''"
| "actionTypeString Check = ''check''"

text \<open>\<^verbatim>\<open>action.value || ''\<close>: an absent value and the empty string both give the empty string.\<close>

definition getActionKey :: "Action \<Rightarrow> string" where
  "getActionKey a =
     actionTypeString (act_type a) @ '':'' @ elementSelector a @ '':'' @
       (case act_value a of None \<Rightarrow> [] | Some v \<Rightarrow> v)"

definition markActionExplored :: "string \<Rightarrow> Action \<Rightarrow> StateManager \<Rightarrow> StateManager" where
  "markActionExplored stateId a m =
     (let actionKey = getActionKey a in
      case mgr_exploredActions m stateId of
        Some explored \<Rightarrow>
          m\<lparr>mgr_exploredActions := (mgr_exploredActions m)(stateId \<mapsto> insert actionKey explored)\<rparr>
      | None \<Rightarrow> m)"

definition isActionExplored :: "StateManager \<Rightarrow> string \<Rightarrow> Action \<Rightarrow> bool" where
  "isActionExplored m stateId a =
     (let actionKey = getActionKey a in
      case mgr_exploredActions m stateId of
        Some explored \<Rightarrow> actionKey \<in> explored
      | None \<Rightarrow> False)"

definition getUnexploredActions :: "StateManager \<Rightarrow> string \<Rightarrow> Action list \<Rightarrow> Action list" where
  "getUnexploredActions m stateId actions = filter (\<lambda>a. \<not> isActionExplored m stateId a) actions"

section \<open>Action generation (src/explorer/ActionDiscovery.ts)\<close>

text \<open>
  \<^verbatim>\<open>a || b\<close> on values that are a string or \<^verbatim>\<open>undefined\<close>: the empty string and
  \<^verbatim>\<open>undefined\<close> are falsy. \<^verbatim>\<open>config.inputValues\<close> is a \<^verbatim>\<open>Record<string, string>\<close>.
\<close>

definition strOr :: "string option \<Rightarrow> string option \<Rightarrow> string option" where
  "strOr a b = (case a of Some (c # cs) \<Rightarrow> a | _ \<Rightarrow> b)"

definition generateActionsForElement :: "(string \<times> string) list \<Rightarrow> InteractiveElement \<Rightarrow> Action list" where
  "generateActionsForElement inputValues element =
     (case el_type element of
        ElButton \<Rightarrow>
          [\<lparr>act_type = Click, elementSelector = el_selector element,
            elementLabel = el_label element, act_value = None\<rparr>]
      | ElLink \<Rightarrow>
          [\<lparr>act_type = Click, elementSelector = el_selector element,
            elementLabel = el_label element, act_value = None\<rparr>]
      | ElInput \<Rightarrow>
          let inputType = (case map_of (el_attributes element) ''type'' of
                             Some (c # cs) \<Rightarrow> c # cs | _ \<Rightarrow> ''text'');
              v = strOr (map_of inputValues inputType) (map_of inputValues ''text'')
          in [\<lparr>act_type = Input, elementSelector = el_selector element,
               elementLabel = el_label element, act_value = v\<rparr>]
      | ElCheckbox \<Rightarrow>
          [\<lparr>act_type = Check, elementSelector = el_selector element,
            elementLabel = el_label element, act_value = None\<rparr>]
      | ElSelect \<Rightarrow>
          [\<lparr>act_type = Select, elementSelector = el_selector element,
            elementLabel = el_label element, act_value = Some ''0''\<rparr>])"

section \<open>The browser as an environment\<close>

text \<open>
  The browser-automation driver and the clock are outside the repository. A value of
  type \<open>'b\<close> is the state of that outside world; a \<open>driver\<close> says how the calls the source
  makes read and change it:
  \<^item> \<open>drv_goto\<close>: \<^verbatim>\<open>page.goto(config.url, ...)\<close> and the wait after it; the flag is
    \<open>False\<close> when the navigation rejects;
  \<^item> \<open>drv_perform\<close>: the body of the \<^verbatim>\<open>try\<close> block of \<^verbatim>\<open>executeActionInternal\<close> (locate
    the element, test its visibility, click, fill or select);
  \<^item> \<open>drv_snapshot\<close>: \<^verbatim>\<open>discoverElements(page)\<close> and everything \<^verbatim>\<open>captureState\<close> reads;
  \<^item> \<open>drv_now\<close>: \<^verbatim>\<open>Date.now()\<close>;
  \<^item> \<open>drv_pathname\<close>: \<^verbatim>\<open>new URL(url).pathname\<close>.
\<close>

datatype outcome = NotVisible | Threw | Performed

record 'b driver =
  drv_goto :: "'b \<Rightarrow> bool \<times> 'b"
  drv_perform :: "Action \<Rightarrow> 'b \<Rightarrow> outcome \<times> 'b"
  drv_snapshot :: "'b \<Rightarrow> Snapshot \<times> 'b"
  drv_now :: "'b \<Rightarrow> nat \<times> 'b"
  drv_pathname :: "string \<Rightarrow> string"

text \<open>
  The errors the source throws:
  \<^item> \<open>ExecutionInProgress\<close>: \<^verbatim>\<open>Error('Action already in progress')\<close> in \<^verbatim>\<open>executeAction\<close>,
    \<^verbatim>\<open>Error('Action in progress')\<close> in \<^verbatim>\<open>jumpToState\<close>;
  \<^item> \<open>BrowserNotInitialized\<close>: \<^verbatim>\<open>Error('Browser not initialized')\<close>;
  \<^item> \<open>PageNotInitialized\<close>: \<^verbatim>\<open>Error('Page not initialized')\<close>;
  \<^item> \<open>UnknownState id\<close>: \<^verbatim>\<open>Error(`Unknown state: ${id}`)\<close>;
  \<^item> \<open>PathNotFound id\<close>: \<^verbatim>\<open>Error(`No path found to state: ${id}`)\<close>;
  \<^item> \<open>NavigationFailure\<close>: the rejection of \<^verbatim>\<open>page.goto\<close>.
\<close>

datatype error =
    ExecutionInProgress
  | BrowserNotInitialized
  | PageNotInitialized
  | UnknownState string
  | PathNotFound string
  | NavigationFailure

text \<open>
  \<^verbatim>\<open>executeActionInternal\<close> (and the private \<^verbatim>\<open>Explorer.executeAction\<close>, which has the same
  body): \<^verbatim>\<open>false\<close> when the element is not visible and when anything in the \<^verbatim>\<open>try\<close>
  block throws, \<^verbatim>\<open>true\<close> otherwise.
\<close>

definition executeActionInternal :: "'b driver \<Rightarrow> Action \<Rightarrow> 'b \<Rightarrow> bool \<times> 'b" where
  "executeActionInternal d a b =
     (case drv_perform d a b of
        (NotVisible, b') \<Rightarrow> (False, b')
      | (Threw, b') \<Rightarrow> (False, b')
      | (Performed, b') \<Rightarrow> (True, b'))"

section \<open>Interactive session controller (src/explorer/InteractiveExplorer.ts)\<close>

record AvailableAction =
  aa_id :: string
  aa_action :: Action
  aa_isExplored :: bool
  aa_isSkipped :: bool
  aa_resultStateId :: "string option"

record ExplorationStep =
  step_timestamp :: nat
  step_fromStateId :: string
  step_toStateId :: string
  step_action :: Action

record ActionResultPayload =
  res_success :: bool
  res_previousStateId :: string
  res_newStateId :: string
  res_isNewState :: bool
  res_error :: "string option"

record StateUpdatePayload =
  upd_currentState :: "AppState option"
  upd_availableActions :: "AvailableAction list"
  upd_pathFromRoot :: "string list"

text \<open>The two events the controller emits, with their payloads.\<close>

datatype Event = StateChange StateUpdatePayload | GraphUpdate StateGraph

text \<open>
  The fields of the class. \<open>ex_page\<close> is \<open>None\<close> for \<^verbatim>\<open>page === null\<close>; \<open>ex_emitted\<close> is the
  sequence of \<^verbatim>\<open>emit\<close> calls made so far.
\<close>

record 'b InteractiveExplorer =
  ex_page :: "'b option"
  ex_inputValues :: "(string \<times> string) list"
  ex_stateManager :: StateManager
  ex_stateGraph :: StateGraph
  currentStateId :: string
  entryStateId :: string
  pathFromRoot :: "string list"
  skippedActions :: "string \<rightharpoonup> string set"
  explorationHistory :: "ExplorationStep list"
  executionLock :: bool
  ex_emitted :: "Event list"

definition getCurrentState :: "'b InteractiveExplorer \<Rightarrow> AppState option" where
  "getCurrentState ex = mgr_getState (ex_stateManager ex) (currentStateId ex)"

definition isActionSkipped :: "'b InteractiveExplorer \<Rightarrow> string \<Rightarrow> string \<Rightarrow> bool" where
  "isActionSkipped ex stateId actionKey =
     (case skippedActions ex stateId of Some skipped \<Rightarrow> actionKey \<in> skipped | None \<Rightarrow> False)"

definition skipAction :: "string \<Rightarrow> string \<Rightarrow> 'b InteractiveExplorer \<Rightarrow> 'b InteractiveExplorer" where
  "skipAction stateId actionKey ex =
     (let old = (case skippedActions ex stateId of Some skipped \<Rightarrow> skipped | None \<Rightarrow> {}) in
      ex\<lparr>skippedActions := (skippedActions ex)(stateId \<mapsto> insert actionKey old)\<rparr>)"

definition unskipAction :: "string \<Rightarrow> string \<Rightarrow> 'b InteractiveExplorer \<Rightarrow> 'b InteractiveExplorer" where
  "unskipAction stateId actionKey ex =
     (case skippedActions ex stateId of
        Some skipped \<Rightarrow> ex\<lparr>skippedActions := (skippedActions ex)(stateId \<mapsto> skipped - {actionKey})\<rparr>
      | None \<Rightarrow> ex)"

definition availableActionFor :: "'b InteractiveExplorer \<Rightarrow> AppState \<Rightarrow> Action \<Rightarrow> AvailableAction" where
  "availableActionFor ex currentState a =
     (let actionKey = getActionKey a;
          actionId = state_id currentState @ '':'' @ actionKey;
          isExplored = isActionExplored (ex_stateManager ex) (state_id currentState) a;
          isSkipped = isActionSkipped ex (state_id currentState) actionKey;
          resultStateId =
            (if isExplored
             then (case find (\<lambda>t. elementSelector (action t) = elementSelector a \<and>
                                    act_type (action t) = act_type a)
                          (getTransitionsFrom (graph_transitions (ex_stateGraph ex))
                             (state_id currentState)) of
                     Some matchingTransition \<Rightarrow> Some (toStateId matchingTransition)
                   | None \<Rightarrow> None)
             else None)
      in \<lparr>aa_id = actionId, aa_action = a, aa_isExplored = isExplored,
          aa_isSkipped = isSkipped, aa_resultStateId = resultStateId\<rparr>)"

definition getAvailableActions :: "'b InteractiveExplorer \<Rightarrow> AvailableAction list" where
  "getAvailableActions ex =
     (case getCurrentState ex of
        None \<Rightarrow> []
      | Some currentState \<Rightarrow>
          concat (map (\<lambda>element.
                         map (availableActionFor ex currentState)
                           (generateActionsForElement (ex_inputValues ex) element))
                    (state_elements currentState)))"

definition buildStateUpdatePayload :: "'b InteractiveExplorer \<Rightarrow> StateUpdatePayload" where
  "buildStateUpdatePayload ex =
     \<lparr>upd_currentState = getCurrentState ex, upd_availableActions = [],
      upd_pathFromRoot = pathFromRoot ex\<rparr>"

definition captureCurrentState ::
  "'b driver \<Rightarrow> 'b \<Rightarrow> 'b InteractiveExplorer \<Rightarrow> AppState \<times> 'b \<times> 'b InteractiveExplorer" where
  "captureCurrentState d b ex =
     (case drv_snapshot d b of
        (snap, b') \<Rightarrow>
          (case captureState (drv_pathname d) snap (ex_stateManager ex) of
             (state, m') \<Rightarrow>
               (state, b', ex\<lparr>ex_page := Some b', ex_stateManager := m',
                          ex_stateGraph := addState state (ex_stateGraph ex)\<rparr>)))"

definition explorer_findPathsTo :: "'b InteractiveExplorer \<Rightarrow> string \<Rightarrow> nat \<Rightarrow> string list list" where
  "explorer_findPathsTo ex targetStateId maxPaths =
     findPaths (entryStateId ex) (graph_transitions (ex_stateGraph ex)) targetStateId maxPaths"

text \<open>
  \<^verbatim>\<open>executeAction\<close>. The two checks before the \<^verbatim>\<open>try\<close> block reject the call; every
  error raised inside it is caught and reported in the payload, and \<^verbatim>\<open>finally\<close> releases
  the lock.
\<close>

definition failedResult :: "string \<Rightarrow> string \<Rightarrow> ActionResultPayload" where
  "failedResult previousStateId msg =
     \<lparr>res_success = False, res_previousStateId = previousStateId,
      res_newStateId = previousStateId, res_isNewState = False, res_error = Some msg\<rparr>"

definition executeAction ::
  "'b driver \<Rightarrow> string \<Rightarrow> 'b InteractiveExplorer \<Rightarrow>
     (error + ActionResultPayload) \<times> 'b InteractiveExplorer" where
  "executeAction d actionId ex =
     (if executionLock ex then (Inl ExecutionInProgress, ex)
      else case ex_page ex of
        None \<Rightarrow> (Inl BrowserNotInitialized, ex)
      | Some b \<Rightarrow>
          let previousStateId = currentStateId ex;
              availableActions = getAvailableActions ex
          in case find (\<lambda>a. aa_id a = actionId) availableActions of
               None \<Rightarrow>
                 (Inr (failedResult previousStateId (''Action not found: '' @ actionId)),
                  ex\<lparr>executionLock := False\<rparr>)
             | Some actionItem \<Rightarrow>
                 let a = aa_action actionItem;
                     ex1 = ex\<lparr>ex_stateManager :=
                               markActionExplored (currentStateId ex) a (ex_stateManager ex)\<rparr>
                 in case executeActionInternal d a b of
                      (False, b1) \<Rightarrow>
                        (Inr (failedResult previousStateId ''Action execution failed''),
                         ex1\<lparr>ex_page := Some b1, executionLock := False\<rparr>)
                    | (True, b1) \<Rightarrow>
                        (case captureCurrentState d b1 ex1 of
                           (newState, b2, ex2) \<Rightarrow>
                             let isNewState =
                                   (state_id newState \<noteq> previousStateId \<and>
                                    \<not> list_ex (\<lambda>s. state_id s = state_id newState \<and>
                                                  state_timestamp s < state_timestamp newState)
                                        (mgr_states (ex_stateManager ex2)));
                                 transition =
                                   \<lparr>trans_id = ''trans_'' @
                                      stringOfNat (length (graph_transitions (ex_stateGraph ex2)) + 1),
                                    fromStateId = previousStateId,
                                    toStateId = state_id newState,
                                    action = a\<rparr>;
                                 g = addTransition transition (ex_stateGraph ex2);
                                 clock = drv_now d b2;
                                 step = \<lparr>step_timestamp = fst clock,
                                         step_fromStateId = previousStateId,
                                         step_toStateId = state_id newState,
                                         step_action = a\<rparr>;
                                 ex3 = ex2\<lparr>ex_page := Some (snd clock),
                                           ex_stateGraph := g,
                                           explorationHistory := explorationHistory ex2 @ [step],
                                           currentStateId := state_id newState,
                                           pathFromRoot :=
                                             (if state_id newState \<noteq> previousStateId
                                              then pathFromRoot ex2 @ [state_id newState]
                                              else pathFromRoot ex2)\<rparr>;
                                 events = StateChange (buildStateUpdatePayload ex3) #
                                            (if isNewState then [GraphUpdate g] else [])
                             in (Inr \<lparr>res_success = True,
                                      res_previousStateId = previousStateId,
                                      res_newStateId = state_id newState,
                                      res_isNewState = isNewState,
                                      res_error = None\<rparr>,
                                 ex3\<lparr>ex_emitted := ex_emitted ex3 @ events,
                                     executionLock := False\<rparr>)))"

text \<open>
  The replay loop of \<^verbatim>\<open>jumpToState\<close>: for every consecutive pair of the path, the first
  recorded transition between the two states is executed again; its result is ignored.
\<close>

fun replay :: "'b driver \<Rightarrow> StateTransition list \<Rightarrow> string list \<Rightarrow> 'b \<Rightarrow> 'b" where
  "replay d ts (fromId # toId # rest) b =
     (let b' = (case find (\<lambda>t. toStateId t = toId) (getTransitionsFrom ts fromId) of
                  Some transition \<Rightarrow> snd (executeActionInternal d (action transition) b)
                | None \<Rightarrow> b)
      in replay d ts (toId # rest) b')"
| "replay d ts path b = b"

definition jumpToState ::
  "'b driver \<Rightarrow> string \<Rightarrow> 'b InteractiveExplorer \<Rightarrow>
     (error + StateUpdatePayload) \<times> 'b InteractiveExplorer" where
  "jumpToState d targetStateId ex =
     (if executionLock ex then (Inl ExecutionInProgress, ex)
      else case ex_page ex of
        None \<Rightarrow> (Inl BrowserNotInitialized, ex)
      | Some b \<Rightarrow>
          (case graph_getState (ex_stateGraph ex) targetStateId of
             None \<Rightarrow> (Inl (UnknownState targetStateId), ex)
           | Some targetState \<Rightarrow>
               if targetStateId = entryStateId ex
               then (case drv_goto d b of
                       (False, b1) \<Rightarrow>
                         (Inl NavigationFailure, ex\<lparr>ex_page := Some b1, executionLock := False\<rparr>)
                     | (True, b1) \<Rightarrow>
                         let ex1 = ex\<lparr>ex_page := Some b1,
                                      currentStateId := entryStateId ex,
                                      pathFromRoot := [entryStateId ex]\<rparr>
                         in (Inr (buildStateUpdatePayload ex1), ex1\<lparr>executionLock := False\<rparr>))
               else
                 let paths = explorer_findPathsTo ex targetStateId 1 in
                 if length paths = 0
                 then (Inl (PathNotFound targetStateId), ex\<lparr>executionLock := False\<rparr>)
                 else
                   let shortestPath = hd paths in
                   case drv_goto d b of
                     (False, b1) \<Rightarrow>
                       (Inl NavigationFailure, ex\<lparr>ex_page := Some b1, executionLock := False\<rparr>)
                   | (True, b1) \<Rightarrow>
                       let b2 = replay d (graph_transitions (ex_stateGraph ex)) shortestPath b1 in
                       case captureCurrentState d b2 ex of
                         (currentState, b3, ex1) \<Rightarrow>
                           let ex2 = ex1\<lparr>currentStateId := state_id currentState,
                                         pathFromRoot := shortestPath\<rparr>
                           in (Inr (buildStateUpdatePayload ex2),
                               ex2\<lparr>executionLock := False\<rparr>)))"

definition goToRoot ::
  "'b driver \<Rightarrow> 'b InteractiveExplorer \<Rightarrow>
     (error + StateUpdatePayload) \<times> 'b InteractiveExplorer" where
  "goToRoot d ex = jumpToState d (entryStateId ex) ex"

section \<open>Exploration engine (src/explorer/Explorer.ts)\<close>

record 'b Explorer =
  exp_page :: "'b option"
  exp_inputValues :: "(string \<times> string) list"
  exp_stateManager :: StateManager
  exp_stateGraph :: StateGraph
  explorationQueue :: "ExplorationQueueItem list"

definition exp_captureCurrentState ::
  "'b driver \<Rightarrow> 'b \<Rightarrow> 'b Explorer \<Rightarrow> AppState \<times> 'b Explorer" where
  "exp_captureCurrentState d b ex =
     (case drv_snapshot d b of
        (snap, b') \<Rightarrow>
          (case captureState (drv_pathname d) snap (exp_stateManager ex) of
             (state, m') \<Rightarrow>
               (state, ex\<lparr>exp_page := Some b', exp_stateManager := m',
                          exp_stateGraph := addState state (exp_stateGraph ex)\<rparr>)))"

definition queueActionsForState ::
  "AppState \<Rightarrow> string list \<Rightarrow> 'b Explorer \<Rightarrow> 'b Explorer" where
  "queueActionsForState state path ex =
     (let allActions = concat (map (generateActionsForElement (exp_inputValues ex))
                                 (state_elements state));
          unexploredActions = getUnexploredActions (exp_stateManager ex) (state_id state) allActions
      in ex\<lparr>explorationQueue := explorationQueue ex @
              map (\<lambda>a. \<lparr>item_stateId = state_id state, item_action = a,
                         item_pathFromRoot = path @ [state_id state]\<rparr>)
                unexploredActions\<rparr>)"

text \<open>
  \<^verbatim>\<open>exploreAction\<close>: \<^verbatim>\<open>restoreToState\<close> is a navigation to the entry url outside the
  \<^verbatim>\<open>try\<close> block, so its failure propagates; everything after \<^verbatim>\<open>markActionExplored\<close> is
  inside the \<^verbatim>\<open>try\<close> block.
\<close>

definition exploreAction ::
  "'b driver \<Rightarrow> ExplorationQueueItem \<Rightarrow> 'b Explorer \<Rightarrow> error option \<times> 'b Explorer" where
  "exploreAction d item ex =
     (case exp_page ex of
        None \<Rightarrow> (Some PageNotInitialized, ex)
      | Some b \<Rightarrow>
          let stateId = item_stateId item;
              a = item_action item;
              path = item_pathFromRoot item
          in case drv_goto d b of
               (False, b1) \<Rightarrow> (Some NavigationFailure, ex\<lparr>exp_page := Some b1\<rparr>)
             | (True, b1) \<Rightarrow>
                 let ex1 = ex\<lparr>exp_page := Some b1,
                              exp_stateManager :=
                                markActionExplored stateId a (exp_stateManager ex)\<rparr>
                 in case executeActionInternal d a b1 of
                      (False, b2) \<Rightarrow> (None, ex1\<lparr>exp_page := Some b2\<rparr>)
                    | (True, b2) \<Rightarrow>
                        (case exp_captureCurrentState d b2 ex1 of
                           (newState, ex2) \<Rightarrow>
                             let transition =
                                   \<lparr>trans_id = ''trans_'' @
                                      stringOfNat (length (graph_transitions (exp_stateGraph ex2)) + 1),
                                    fromStateId = stateId,
                                    toStateId = state_id newState,
                                    action = a\<rparr>;
                                 ex3 = ex2\<lparr>exp_stateGraph :=
                                             addTransition transition (exp_stateGraph ex2)\<rparr>
                             in if state_id newState \<noteq> stateId
                                then (None, queueActionsForState newState path ex3)
                                else (None, ex3)))"

text \<open>
  The engine once \<^verbatim>\<open>init\<close> has opened the page, and the part of \<^verbatim>\<open>runExploration\<close> before
  its loop: navigate to the entry url, capture the initial state, make it the entry state
  and queue its actions with the empty path.
\<close>

definition newExplorer :: "(string \<times> string) list \<Rightarrow> 'b \<Rightarrow> 'b Explorer" where
  "newExplorer inputValues b =
     \<lparr>exp_page = Some b, exp_inputValues = inputValues, exp_stateManager = newStateManager,
      exp_stateGraph = newStateGraph, explorationQueue = []\<rparr>"

definition seedExploration :: "'b driver \<Rightarrow> 'b Explorer \<Rightarrow> error option \<times> 'b Explorer" where
  "seedExploration d ex =
     (case exp_page ex of
        None \<Rightarrow> (Some PageNotInitialized, ex)
      | Some b \<Rightarrow>
          (case drv_goto d b of
             (False, b1) \<Rightarrow> (Some NavigationFailure, ex\<lparr>exp_page := Some b1\<rparr>)
           | (True, b1) \<Rightarrow>
               (case exp_captureCurrentState d b1 ex of
                  (initialState, ex1) \<Rightarrow>
                    (None,
                     queueActionsForState initialState []
                       (ex1\<lparr>exp_stateGraph :=
                              setEntryState (state_id initialState) (exp_stateGraph ex1)\<rparr>)))))"

section \<open>Session persistence (src/session/SessionManager.ts)\<close>

text \<open>
  \<^verbatim>\<open>load\<close> and \<^verbatim>\<open>migrate\<close> work on the untyped result of \<^verbatim>\<open>JSON.parse\<close>; the casts of the
  source do nothing at run time. A JavaScript value is a \<open>json\<close>; \<open>JUndefined\<close> is what
  reading an absent property gives. Numbers are integers here.
\<close>

datatype json =
    JUndefined
  | JNull
  | JBool bool
  | JNum int
  | JStr string
  | JArr "json list"
  | JObj "(string \<times> json) list"

definition CURRENT_VERSION :: int where
  "CURRENT_VERSION = 1"

text \<open>
  Reading a property. On \<^verbatim>\<open>null\<close> and \<^verbatim>\<open>undefined\<close> the read throws a \<^verbatim>\<open>TypeError\<close>
  (\<open>nullish\<close>); numbers, strings, booleans and arrays have none of the properties the
  source reads.
\<close>

definition nullish :: "json \<Rightarrow> bool" where
  "nullish v = (v = JNull \<or> v = JUndefined)"

fun getProp :: "json \<Rightarrow> string \<Rightarrow> json" where
  "getProp (JObj kvs) k = (case map_of kvs k of Some v \<Rightarrow> v | None \<Rightarrow> JUndefined)"
| "getProp v k = JUndefined"

fun truthy :: "json \<Rightarrow> bool" where
  "truthy JUndefined = False"
| "truthy JNull = False"
| "truthy (JBool b) = b"
| "truthy (JNum n) = (n \<noteq> 0)"
| "truthy (JStr s) = (s \<noteq> [])"
| "truthy (JArr xs) = True"
| "truthy (JObj kvs) = True"

definition jsOr :: "json \<Rightarrow> json \<Rightarrow> json" where
  "jsOr a b = (if truthy a then a else b)"

text \<open>
  What \<^verbatim>\<open>migrate\<close> reads from outside: the id made by \<^verbatim>\<open>generateSessionId()\<close>, the two
  \<^verbatim>\<open>new Date().toISOString()\<close> strings, and the platform's conversion to a number of a
  value that is a string, an array or an object (\<open>None\<close> for \<^verbatim>\<open>NaN\<close>).
\<close>

record MigrateEnv =
  env_sessionId :: string
  env_createdNow :: string
  env_updatedNow :: string
  env_toNumber :: "json \<Rightarrow> int option"

fun toNumber :: "MigrateEnv \<Rightarrow> json \<Rightarrow> int option" where
  "toNumber env JUndefined = None"
| "toNumber env JNull = Some 0"
| "toNumber env (JBool b) = Some (if b then 1 else 0)"
| "toNumber env (JNum n) = Some n"
| "toNumber env v = env_toNumber env v"

datatype load_error =
    SessionFileNotFound
  | MalformedContent
  | PropertyOfNull
  | VersionIncompatible json

definition migrate :: "MigrateEnv \<Rightarrow> json \<Rightarrow> load_error + json" where
  "migrate env data =
     (if nullish data then Inl PropertyOfNull
      else
        let version = getProp data ''version'' in
        if \<not> truthy version \<or> version = JNum 0
        then Inr (JObj
          [(''version'', JNum CURRENT_VERSION),
           (''id'', jsOr (getProp data ''id'') (JStr (env_sessionId env))),
           (''appUrl'', jsOr (getProp data ''appUrl'') (JStr [])),
           (''createdAt'', jsOr (getProp data ''createdAt'') (JStr (env_createdNow env))),
           (''lastUpdatedAt'', JStr (env_updatedNow env)),
           (''currentStateId'', jsOr (getProp data ''currentStateId'') (JStr [])),
           (''entryStateId'', jsOr (getProp data ''entryStateId'') (JStr [])),
           (''stateGraph'', getProp data ''stateGraph''),
           (''skippedActions'', jsOr (getProp data ''skippedActions'') (JObj [])),
           (''explorationHistory'', jsOr (getProp data ''explorationHistory'') (JArr []))])
        else if (case toNumber env version of Some n \<Rightarrow> n > CURRENT_VERSION | None \<Rightarrow> False)
        then Inl (VersionIncompatible version)
        else Inr data)"

text \<open>
  The file as \<^verbatim>\<open>load\<close> finds it: absent, present with content \<^verbatim>\<open>JSON.parse\<close> rejects, or
  present with the parsed value.
\<close>

datatype session_file = NoFile | Unparsable | Parsed json

definition load :: "MigrateEnv \<Rightarrow> session_file \<Rightarrow> load_error + json" where
  "load env file =
     (case file of
        NoFile \<Rightarrow> Inl SessionFileNotFound
      | Unparsable \<Rightarrow> Inl MalformedContent
      | Parsed raw \<Rightarrow>
          if nullish raw then Inl PropertyOfNull
          else if getProp raw ''version'' \<noteq> JNum CURRENT_VERSION then migrate env raw
          else Inr raw)"

section \<open>Auxiliary notions: example data and invariants\<close>

text \<open>A click transition between two states, and a small graph with a cycle.\<close>

definition clickTransition :: "string \<Rightarrow> string \<Rightarrow> string \<Rightarrow> StateTransition" where
  "clickTransition f t sel =
     \<lparr>trans_id = ''trans_0'', fromStateId = f, toStateId = t,
      action = \<lparr>act_type = Click, elementSelector = sel, elementLabel = sel, act_value = None\<rparr>\<rparr>"

definition cycleGraph :: StateGraph where
  "cycleGraph =
     \<lparr>graph_states = [], 
      graph_transitions = [clickTransition ''a'' ''b'' ''x'', clickTransition ''b'' ''a'' ''y'',
                           clickTransition ''b'' ''c'' ''z'', clickTransition ''a'' ''c'' ''w''],
      graph_entryStateId = ''a''\<rparr>"

text \<open>A sequence of \<^verbatim>\<open>addTransition\<close> calls.\<close>

definition insertAll :: "StateTransition list \<Rightarrow> StateGraph \<Rightarrow> StateGraph" where
  "insertAll ts g = foldl (\<lambda>g t. addTransition t g) g ts"

text \<open>The quadruple \<^verbatim>\<open>addTransition\<close> compares.\<close>

definition transitionKey :: "StateTransition \<Rightarrow> string \<times> string \<times> ActionType \<times> string" where
  "transitionKey t = (fromStateId t, toStateId t, act_type (action t), elementSelector (action t))"


definition plainState :: "string \<Rightarrow> AppState" where
  "plainState i =
     \<lparr>state_id = i, state_url = ''http://h/'', state_domHash = i, state_description = i,
      state_elements = [], state_timestamp = 0\<rparr>"

definition danglingGraph :: StateGraph where
  "danglingGraph =
     \<lparr>graph_states = [plainState ''a''],
      graph_transitions = [clickTransition ''ghost'' ''a'' ''x''],
      graph_entryStateId = ''ghost''\<rparr>"

definition unsetGraph :: StateGraph where
  "unsetGraph =
     \<lparr>graph_states = [plainState ''a''],
      graph_transitions = [clickTransition ''a'' ''a'' ''x''],
      graph_entryStateId = []\<rparr>"

definition orphanGraph :: StateGraph where
  "orphanGraph =
     \<lparr>graph_states = [plainState ''a'', plainState ''b''],
      graph_transitions = [clickTransition ''a'' ''b'' ''x''],
      graph_entryStateId = ''ghost''\<rparr>"

text \<open>
  The invariant of the path search: every queued item carries a non-empty path without
  repetition that starts at the entry state, ends at the item's state and meets the
  target at most at its end; every collected path is such a path ending at the target.
\<close>

definition goodItem :: "string \<Rightarrow> string \<Rightarrow> string \<times> string list \<Rightarrow> bool" where
  "goodItem entry tg it =
     (snd it \<noteq> [] \<and> hd (snd it) = entry \<and> last (snd it) = fst it \<and> distinct (snd it) \<and>
      tg \<notin> set (butlast (snd it)))"

definition goodPath :: "string \<Rightarrow> string \<Rightarrow> string list \<Rightarrow> bool" where
  "goodPath entry tg p = (p \<noteq> [] \<and> hd p = entry \<and> last p = tg \<and> distinct p)"

definition searchInv :: "string \<Rightarrow> string \<Rightarrow> search \<Rightarrow> bool" where
  "searchInv entry tg s =
     (list_all (goodItem entry tg) (queue s) \<and> list_all (goodPath entry tg) (allPaths s))"

text \<open>
  A two-page application. Page \<open>0\<close> shows four buttons: \<^verbatim>\<open>#go\<close> and \<^verbatim>\<open>#also\<close> lead to
  page \<open>1\<close>, \<^verbatim>\<open>#gone\<close> is not visible when clicked, the click on \<^verbatim>\<open>#boom\<close> throws. Page
  \<open>1\<close> shows one button that changes nothing. An element that is not on the page shown is
  not visible. The world is the number of the page shown.
\<close>

definition demoButton :: "string \<Rightarrow> InteractiveElement" where
  "demoButton sel =
     \<lparr>el_selector = sel, el_type = ElButton, el_label = sel, el_tagName = ''button'',
      el_attributes = []\<rparr>"

definition demoElements :: "nat \<Rightarrow> InteractiveElement list" where
  "demoElements b =
     (if b = 0 then [demoButton ''#go'', demoButton ''#also'', demoButton ''#gone'',
                     demoButton ''#boom'']
      else [demoButton ''#stay''])"

definition demoSnapshot :: "nat \<Rightarrow> Snapshot" where
  "demoSnapshot b =
     \<lparr>snap_url = ''http://h/'', snap_domHash = (if b = 0 then ''h0'' else ''h1''),
      snap_description = ''page'', snap_elements = demoElements b, snap_now = 0\<rparr>"

definition demoPathname :: "string \<Rightarrow> string" where
  "demoPathname url = dropWhile (\<lambda>c. c \<noteq> CHR ''/'') (drop 7 url)"

definition demoDriver :: "nat driver" where
  "demoDriver =
     \<lparr>drv_goto = (\<lambda>b. (True, 0)),
      drv_perform = (\<lambda>a b.
         if b = 0
         then (if elementSelector a = ''#go'' \<or> elementSelector a = ''#also'' then (Performed, 1)
               else if elementSelector a = ''#boom'' then (Threw, 0)
               else (NotVisible, 0))
         else (if elementSelector a = ''#stay'' then (Performed, b) else (NotVisible, b))),
      drv_snapshot = (\<lambda>b. (demoSnapshot b, b)),
      drv_now = (\<lambda>b. (0, b)),
      drv_pathname = demoPathname\<rparr>"

definition demoState :: "nat \<Rightarrow> AppState" where
  "demoState b =
     \<lparr>state_id = (if b = 0 then ''state_001'' else ''state_002''),
      state_url = ''http://h/'',
      state_domHash = (if b = 0 then ''h0'' else ''h1''),
      state_description = ''page'',
      state_elements = demoElements b,
      state_timestamp = 0\<rparr>"

text \<open>
  The controller on page \<open>0\<close> with both pages known and no transition recorded, so that
  the second state has no recorded path.
\<close>

definition demoManager :: StateManager where
  "demoManager =
     \<lparr>mgr_states = [demoState 0, demoState 1], mgr_stateCounter = 2,
      mgr_exploredActions = [''state_001'' \<mapsto> {}, ''state_002'' \<mapsto> {}]\<rparr>"

definition demoExplorer :: "nat InteractiveExplorer" where
  "demoExplorer =
     \<lparr>ex_page = Some 0,
      ex_inputValues = [(''text'', ''Test item'')],
      ex_stateManager = demoManager,
      ex_stateGraph = \<lparr>graph_states = [demoState 0, demoState 1], graph_transitions = [],
                       graph_entryStateId = ''state_001''\<rparr>,
      currentStateId = ''state_001'',
      entryStateId = ''state_001'',
      pathFromRoot = [''state_001''],
      skippedActions = Map.empty,
      explorationHistory = [],
      executionLock = False,
      ex_emitted = []\<rparr>"


text \<open>A run of \<^verbatim>\<open>captureState\<close> calls, each on the manager the previous one left.\<close>

fun captureAll :: "(string \<Rightarrow> string) \<Rightarrow> Snapshot list \<Rightarrow> StateManager \<Rightarrow> AppState list \<times> StateManager" where
  "captureAll pathname [] m = ([], m)"
| "captureAll pathname (snap # snaps) m =
     (case captureState pathname snap m of
        (s, m') \<Rightarrow> (case captureAll pathname snaps m' of (ss, m'') \<Rightarrow> (s # ss, m'')))"

text \<open>
  Reading a decimal numeral back, ignoring leading zeros; it inverts the numbering of
  state ids.
\<close>

definition natOfDigits :: "string \<Rightarrow> nat" where
  "natOfDigits s = foldl (\<lambda>a c. 10 * a + (of_char c - 48)) 0 s"

text \<open>
  The ids a manager has issued, and the invariant of a manager that was built by
  \<^verbatim>\<open>captureState\<close> and \<^verbatim>\<open>markActionExplored\<close> from the empty one: every stored state
  has an explored-action set, and every explored-action set belongs to an issued id.
\<close>

definition issuedIds :: "StateManager \<Rightarrow> string set" where
  "issuedIds m = mkStateId ` {k. k \<le> mgr_stateCounter m}"

definition mgrInv :: "StateManager \<Rightarrow> bool" where
  "mgrInv m =
     (state_id ` set (mgr_states m) \<subseteq> dom (mgr_exploredActions m) \<and>
      dom (mgr_exploredActions m) \<subseteq> issuedIds m)"

definition snapshotKey :: "(string \<Rightarrow> string) \<Rightarrow> Snapshot \<Rightarrow> string" where
  "snapshotKey pathname snap = computeStateKey pathname (snap_url snap) (snap_domHash snap)"

text \<open>The two operations that change a manager, and a sequence of them.\<close>

datatype mgr_op = OpCapture Snapshot | OpMark string Action

fun applyOps :: "(string \<Rightarrow> string) \<Rightarrow> mgr_op list \<Rightarrow> StateManager \<Rightarrow> StateManager" where
  "applyOps pathname [] m = m"
| "applyOps pathname (OpCapture snap # ops) m = applyOps pathname ops (snd (captureState pathname snap m))"
| "applyOps pathname (OpMark stateId a # ops) m = applyOps pathname ops (markActionExplored stateId a m)"

text \<open>The manager of the example after its first capture.\<close>

definition demoManager1 :: StateManager where
  "demoManager1 =
     \<lparr>mgr_states = [demoState 0], mgr_stateCounter = 1,
      mgr_exploredActions = [''state_001'' \<mapsto> {}]\<rparr>"

text \<open>The exploration engine of the example on page \<open>0\<close>, both pages known.\<close>

definition demoEngine :: "nat Explorer" where
  "demoEngine =
     \<lparr>exp_page = Some 0,
      exp_inputValues = [(''text'', ''Test item'')],
      exp_stateManager = demoManager,
      exp_stateGraph = \<lparr>graph_states = [demoState 0, demoState 1], graph_transitions = [],
                        graph_entryStateId = ''state_001''\<rparr>,
      explorationQueue = []\<rparr>"

definition clickOn :: "string \<Rightarrow> Action" where
  "clickOn sel = \<lparr>act_type = Click, elementSelector = sel, elementLabel = sel, act_value = None\<rparr>"

text \<open>What \<^verbatim>\<open>getAvailableActions\<close> lists for the hidden button of the example.\<close>

definition goneItem :: AvailableAction where
  "goneItem =
     \<lparr>aa_id = ''state_001:click:#gone:'', aa_action = clickOn ''#gone'',
      aa_isExplored = False, aa_isSkipped = False, aa_resultStateId = None\<rparr>"

definition boomItem :: ExplorationQueueItem where
  "boomItem =
     \<lparr>item_stateId = ''state_001'', item_action = clickOn ''#boom'',
      item_pathFromRoot = [''state_001'']\<rparr>"

text \<open>
  The engine of the example after the entry state was captured and the first queued
  action, the click on \<^verbatim>\<open>#go\<close>, was explored; the next item is the click on \<^verbatim>\<open>#also\<close>.
\<close>

definition demoQueueItem :: "string \<Rightarrow> string \<Rightarrow> string list \<Rightarrow> ExplorationQueueItem" where
  "demoQueueItem stateId sel path =
     \<lparr>item_stateId = stateId, item_action = clickOn sel, item_pathFromRoot = path\<rparr>"

definition demoSeeded :: "nat Explorer" where
  "demoSeeded = snd (seedExploration demoDriver (newExplorer [(''text'', ''Test item'')] 0))"

definition demoAfterGo :: "nat Explorer" where
  "demoAfterGo =
     snd (exploreAction demoDriver (hd (explorationQueue demoSeeded))
            (demoSeeded\<lparr>explorationQueue := tl (explorationQueue demoSeeded)\<rparr>))"

definition demoAfterAlso :: "nat Explorer" where
  "demoAfterAlso =
     snd (exploreAction demoDriver (hd (explorationQueue demoAfterGo))
            (demoAfterGo\<lparr>explorationQueue := tl (explorationQueue demoAfterGo)\<rparr>))"

text \<open>
  A recorded path from the entry state to a target: a non-empty sequence of state ids
  that starts at the entry state, ends at the target, and in which every id is joined to
  the next by a stored transition.
\<close>

fun isWalk :: "StateTransition list \<Rightarrow> string list \<Rightarrow> bool" where
  "isWalk ts [] = True"
| "isWalk ts [x] = True"
| "isWalk ts (x # y # rest) =
     (list_ex (\<lambda>t. fromStateId t = x \<and> toStateId t = y) ts \<and> isWalk ts (y # rest))"

definition recordedPath :: "StateTransition list \<Rightarrow> string \<Rightarrow> string \<Rightarrow> string list \<Rightarrow> bool" where
  "recordedPath ts entry target p = (p \<noteq> [] \<and> hd p = entry \<and> last p = target \<and> isWalk ts p)"

definition walkInv :: "StateTransition list \<Rightarrow> search \<Rightarrow> bool" where
  "walkInv ts s = (list_all (\<lambda>it. isWalk ts (snd it)) (queue s) \<and> list_all (isWalk ts) (allPaths s))"






text \<open>
  The controller of the example with a third known state that only has an outgoing
  transition: no recorded path leads to it.
\<close>

definition strandedExplorer :: "nat InteractiveExplorer" where
  "strandedExplorer =
     demoExplorer\<lparr>ex_stateGraph :=
       \<lparr>graph_states = [demoState 0, demoState 1, plainState ''state_003''],
        graph_transitions =
          [clickTransition ''state_001'' ''state_002'' ''#go'',
           clickTransition ''state_003'' ''state_002'' ''#back''],
        graph_entryStateId = ''state_001''\<rparr>\<rparr>"

section \<open>Transition deduplication\<close>

lemma sameTransition_key: "sameTransition t u = (transitionKey u = transitionKey t)"
  by (auto simp: sameTransition_def transitionKey_def)

lemma addTransition_distinct:
  "distinct (map transitionKey (graph_transitions g)) \<Longrightarrow>
   distinct (map transitionKey (graph_transitions (addTransition t g)))"
  by (auto simp: addTransition_def Let_def list_ex_iff sameTransition_key)

lemma insertAll_distinct:
  "distinct (map transitionKey (graph_transitions g)) \<Longrightarrow>
   distinct (map transitionKey (graph_transitions (insertAll ts g)))"
  unfolding insertAll_def
  by (induction ts arbitrary: g) (simp_all add: addTransition_distinct)

lemma distinct_key_filter:
  "distinct (map f xs) \<Longrightarrow> length (filter (\<lambda>x. f x = k) xs) \<le> Suc 0"
proof (induction xs)
  case Nil
  then show ?case by simp
next
  case (Cons x xs)
  show ?case
  proof (cases "f x = k")
    case True
    then have "filter (\<lambda>x. f x = k) xs = []"
      using Cons.prems by (auto simp: filter_empty_conv image_iff)
    then show ?thesis using True by simp
  next
    case False
    then show ?thesis using Cons by simp
  qed
qed

text \<open>
  Claim C5. Inserting a transition that agrees with a stored one on
  (\<^verbatim>\<open>fromStateId\<close>, \<^verbatim>\<open>toStateId\<close>, \<^verbatim>\<open>action.type\<close>, \<^verbatim>\<open>action.elementSelector\<close>) leaves the
  graph unchanged, and after any sequence of insertions into the empty graph at most one
  stored transition carries a given quadruple.
\<close>

theorem addTransition_rejects_duplicates:
  "(list_ex (sameTransition t) (graph_transitions g) \<longrightarrow> addTransition t g = g) \<and>
   length (filter (sameTransition t) (graph_transitions (insertAll ts newStateGraph))) \<le> 1"
proof
  show "list_ex (sameTransition t) (graph_transitions g) \<longrightarrow> addTransition t g = g"
    by (simp add: addTransition_def)
next
  have "distinct (map transitionKey (graph_transitions (insertAll ts newStateGraph)))"
    by (rule insertAll_distinct) (simp add: newStateGraph_def)
  from distinct_key_filter [OF this, of "transitionKey t"]
  show "length (filter (sameTransition t) (graph_transitions (insertAll ts newStateGraph))) \<le> 1"
    by (simp add: sameTransition_key [abs_def])
qed

theorem addTransition_rejects_duplicates_witness:
  "list_ex (sameTransition (clickTransition ''a'' ''b'' ''x''))
     (graph_transitions (addTransition (clickTransition ''a'' ''b'' ''#x'') cycleGraph)) \<and>
   addTransition (clickTransition ''a'' ''b'' ''x'')
     (addTransition (clickTransition ''a'' ''b'' ''#x'') cycleGraph) =
     addTransition (clickTransition ''a'' ''b'' ''#x'') cycleGraph \<and>
   length (graph_transitions (addTransition (clickTransition ''a'' ''b'' ''#x'') cycleGraph)) = 5 \<and>
   length (filter (sameTransition (clickTransition ''a'' ''b'' ''x''))
     (graph_transitions
        (insertAll [clickTransition ''a'' ''b'' ''x'', clickTransition ''a'' ''c'' ''x'',
                    clickTransition ''a'' ''b'' ''x'', clickTransition ''a'' ''b'' ''x'']
           newStateGraph))) = 1"
proof -
  have h: "list_ex (sameTransition (clickTransition ''a'' ''b'' ''x''))
     (graph_transitions (addTransition (clickTransition ''a'' ''b'' ''#x'') cycleGraph))"
    by (simp add: addTransition_def cycleGraph_def clickTransition_def sameTransition_def)
  have n: "length (graph_transitions (addTransition (clickTransition ''a'' ''b'' ''#x'') cycleGraph)) = 5"
    by (simp add: addTransition_def cycleGraph_def clickTransition_def sameTransition_def)
  have c: "length (filter (sameTransition (clickTransition ''a'' ''b'' ''x''))
     (graph_transitions
        (insertAll [clickTransition ''a'' ''b'' ''x'', clickTransition ''a'' ''c'' ''x'',
                    clickTransition ''a'' ''b'' ''x'', clickTransition ''a'' ''b'' ''x'']
           newStateGraph))) = 1"
    by (simp add: insertAll_def addTransition_def newStateGraph_def clickTransition_def
        sameTransition_def)
  from addTransition_rejects_duplicates
    [of "clickTransition ''a'' ''b'' ''x''"
        "addTransition (clickTransition ''a'' ''b'' ''#x'') cycleGraph"] h n c
  show ?thesis by blast
qed

section \<open>Path search\<close>

lemma goodItem_not_target:
  assumes "goodItem entry tg (sid, p)" "sid \<noteq> tg"
  shows "tg \<notin> set p"
proof -
  from assms have p: "p \<noteq> []" "last p = sid" "tg \<notin> set (butlast p)"
    by (simp_all add: goodItem_def)
  have "set p = insert (last p) (set (butlast p))"
    using p(1) by (metis append_butlast_last_id list.simps(15) rotate1.simps(2) set_rotate1)
  then show ?thesis using p assms(2) by auto
qed

lemma searchStep_inv:
  assumes "searchInv entry tg s"
  shows "searchInv entry tg (searchStep ts tg s)"
proof (cases "queue s")
  case Nil
  then show ?thesis using assms by (simp add: searchStep_def)
next
  case (Cons it rest)
  obtain sid p where it: "it = (sid, p)" by (cases it)
  have gi: "goodItem entry tg (sid, p)" and gr: "list_all (goodItem entry tg) rest"
    and gp: "list_all (goodPath entry tg) (allPaths s)"
    using assms Cons it by (simp_all add: searchInv_def)
  show ?thesis
  proof (cases "sid = tg")
    case True
    then have "goodPath entry tg p" using gi by (simp add: goodItem_def goodPath_def)
    then show ?thesis using Cons it True gr gp by (simp add: searchStep_def searchInv_def)
  next
    case False
    have nt: "tg \<notin> set p" using goodItem_not_target [OF gi False] .
    have kid: "goodItem entry tg (toStateId t, p @ [toStateId t])"
      if "toStateId t \<notin> set p \<or> toStateId t = tg" for t
      using that gi nt by (auto simp: goodItem_def)
    show ?thesis using Cons it False gr gp kid
      by (auto simp: searchStep_def searchInv_def Let_def list_all_iff)
  qed
qed

lemma searchLoop_inv:
  "searchInv entry tg s \<Longrightarrow> list_all (goodPath entry tg) (searchLoop ts tg mp s)"
proof (induction ts tg mp s rule: searchLoop.induct)
  case (1 ts tg mp s)
  show ?case
  proof (cases "searchGuard mp s")
    case True
    then show ?thesis using 1 searchStep_inv [of entry tg s ts]
      by (subst searchLoop.simps) simp
  next
    case False
    then show ?thesis using 1(2)
      by (subst searchLoop.simps) (simp add: searchInv_def)
  qed
qed

lemma searchInit_inv: "entry \<noteq> tg \<Longrightarrow> searchInv entry tg (searchInit entry)"
  by (simp add: searchInv_def searchInit_def goodItem_def)

lemma findPaths_good: "list_all (goodPath entry tg) (findPaths entry ts tg mp)"
  using searchLoop_inv [OF searchInit_inv, of entry tg ts mp]
  by (auto simp: findPaths_def goodPath_def)

lemma findPaths_entry: "findPaths entry ts entry mp = [[entry]]"
  by (simp add: findPaths_def)



lemma findPaths_no_outgoing:
  assumes "tg \<noteq> entry" "getTransitionsFrom ts entry = []"
  shows "findPaths entry ts tg mp = []"
proof (cases "mp = 0")
  case True
  have "searchLoop ts tg mp (searchInit entry) = []"
    using True by (subst searchLoop.simps) (simp add: searchGuard_def searchInit_def)
  then show ?thesis using assms by (simp add: findPaths_def)
next
  case False
  have step: "searchStep ts tg (searchInit entry) =
     \<lparr>queue = [], visited = {join ''->'' [entry]}, allPaths = []\<rparr>"
    using assms by (simp add: searchStep_def searchInit_def)
  have "searchLoop ts tg mp (searchInit entry) =
        searchLoop ts tg mp \<lparr>queue = [], visited = {join ''->'' [entry]}, allPaths = []\<rparr>"
    using False step
    by (subst searchLoop.simps) (simp add: searchGuard_def searchInit_def)
  also have "\<dots> = []"
    by (subst searchLoop.simps) (simp add: searchGuard_def)
  finally show ?thesis using assms by (simp add: findPaths_def)
qed

lemmas search_eval =
  findPaths_def graph_findPathsTo_def searchInit_def searchLoop.simps searchGuard_def
  searchStep_def getTransitionsFrom_def clickTransition_def

lemma computePaths_fold:
  "foldl (\<lambda>paths state. paths(state_id state \<mapsto> f (state_id state))) m xs k =
     (if k \<in> state_id ` set xs then Some (f k) else m k)"
  by (induction xs arbitrary: m) auto

text \<open>
  Claim C9 as amended. \<^verbatim>\<open>computePaths\<close> is total. With the entry state id unset (the empty
  string) it returns the empty record. With an entry state id that names no stored state
  and that no stored transition leaves, every path list it returns is empty.
\<close>

theorem computePaths_absent_entry:
  "(graph_entryStateId g = [] \<longrightarrow> computePaths g = Map.empty) \<and>
   (\<not> graph_has g (graph_entryStateId g) \<and>
    getTransitionsFrom (graph_transitions g) (graph_entryStateId g) = [] \<longrightarrow>
      (\<forall>k ps. computePaths g k = Some ps \<longrightarrow> ps = []))"
proof (intro conjI impI allI)
  assume "graph_entryStateId g = []"
  then show "computePaths g = Map.empty" by (simp add: computePaths_def)
next
  fix k ps
  assume a: "\<not> graph_has g (graph_entryStateId g) \<and>
    getTransitionsFrom (graph_transitions g) (graph_entryStateId g) = []"
    and k: "computePaths g k = Some ps"
  show "ps = []"
  proof (cases "graph_entryStateId g = []")
    case True
    then show ?thesis using k by (simp add: computePaths_def)
  next
    case False
    then have "k \<in> state_id ` set (graph_states g)" and ps: "ps = graph_findPathsTo g k 3"
      using k computePaths_fold [of "\<lambda>i. graph_findPathsTo g i 3" Map.empty "graph_states g" k]
      by (auto simp: computePaths_def split: if_splits)
    then have "k \<noteq> graph_entryStateId g" using a by (auto simp: graph_has_def image_iff)
    then show ?thesis using a ps
      by (simp add: graph_findPathsTo_def findPaths_no_outgoing)
  qed
qed

text \<open>
  Claim C9 as stated fails: the guard of \<^verbatim>\<open>computePaths\<close> tests only whether the entry
  state id is the empty string. With the entry id \<^verbatim>\<open>ghost\<close>, absent from the state map, and
  a stored transition from \<^verbatim>\<open>ghost\<close> to the stored state \<^verbatim>\<open>a\<close>, a path is returned for \<^verbatim>\<open>a\<close>.
\<close>

theorem computePaths_dangling_counterexample:
  "\<not> graph_has danglingGraph (graph_entryStateId danglingGraph) \<and>
   computePaths danglingGraph ''a'' = Some [[''ghost'', ''a'']]"
  by (simp add: computePaths_def danglingGraph_def graph_has_def plainState_def search_eval)

theorem computePaths_absent_entry_witness:
  "graph_entryStateId unsetGraph = [] \<and> computePaths unsetGraph = Map.empty \<and>
   \<not> graph_has orphanGraph (graph_entryStateId orphanGraph) \<and>
   getTransitionsFrom (graph_transitions orphanGraph) (graph_entryStateId orphanGraph) = [] \<and>
   computePaths orphanGraph ''b'' = Some []"
proof -
  have u: "graph_entryStateId unsetGraph = []" by (simp add: unsetGraph_def)
  have o: "\<not> graph_has orphanGraph (graph_entryStateId orphanGraph) \<and>
    getTransitionsFrom (graph_transitions orphanGraph) (graph_entryStateId orphanGraph) = []"
    by (simp add: orphanGraph_def graph_has_def plainState_def getTransitionsFrom_def
        clickTransition_def)
  have b: "computePaths orphanGraph ''b'' = Some []"
    by (simp add: computePaths_def orphanGraph_def plainState_def search_eval)
  from computePaths_absent_entry [of unsetGraph] computePaths_absent_entry [of orphanGraph] u o b
  show ?thesis by blast
qed

text \<open>
  Claim C1. Every path returned by the path search, in the graph and in the interactive
  controller, has no repeated state id, starts at the entry state and ends at the
  target; the search for the entry state itself returns exactly the one-element path.
\<close>

theorem findPathsTo_simple_paths:
  "(\<forall>p \<in> set (graph_findPathsTo g target maxPaths).
      distinct p \<and> p \<noteq> [] \<and> hd p = graph_entryStateId g \<and> last p = target) \<and>
   (\<forall>p \<in> set (explorer_findPathsTo ex target' maxPaths').
      distinct p \<and> p \<noteq> [] \<and> hd p = entryStateId ex \<and> last p = target') \<and>
   graph_findPathsTo g (graph_entryStateId g) maxPaths = [[graph_entryStateId g]] \<and>
   explorer_findPathsTo ex (entryStateId ex) maxPaths' = [[entryStateId ex]]"
  using findPaths_good [of "graph_entryStateId g" target "graph_transitions g" maxPaths]
    findPaths_good [of "entryStateId ex" target' "graph_transitions (ex_stateGraph ex)" maxPaths']
  by (simp add: graph_findPathsTo_def explorer_findPathsTo_def findPaths_entry list_all_iff
      goodPath_def)

theorem findPathsTo_simple_paths_witness:
  "[''a'', ''b'', ''c''] \<in> set (graph_findPathsTo cycleGraph ''c'' 3) \<and>
   distinct [''a'', ''b'', ''c''] \<and>
   hd [''a'', ''b'', ''c''] = graph_entryStateId cycleGraph \<and>
   last [''a'', ''b'', ''c''] = ''c'' \<and>
   [''a'', ''c''] \<in> set (explorer_findPathsTo
      (demoExplorer\<lparr>ex_stateGraph := cycleGraph, entryStateId := ''a''\<rparr>) ''c'' 1) \<and>
   distinct [''a'', ''c''] \<and>
   hd [''a'', ''c''] = entryStateId (demoExplorer\<lparr>ex_stateGraph := cycleGraph, entryStateId := ''a''\<rparr>) \<and>
   last [''a'', ''c''] = ''c'' \<and>
   graph_findPathsTo cycleGraph (graph_entryStateId cycleGraph) 3 = [[''a'']]"
proof -
  have a: "graph_findPathsTo cycleGraph ''c'' 3 = [[''a'', ''c''], [''a'', ''b'', ''c'']]"
    by (simp add: search_eval cycleGraph_def)
  have b: "explorer_findPathsTo
      (demoExplorer\<lparr>ex_stateGraph := cycleGraph, entryStateId := ''a''\<rparr>) ''c'' 1 = [[''a'', ''c'']]"
    by (simp add: explorer_findPathsTo_def search_eval cycleGraph_def)
  have c: "graph_entryStateId cycleGraph = ''a''"
    by (simp add: cycleGraph_def)
  from findPathsTo_simple_paths
    [of cycleGraph "''c''" 3 "demoExplorer\<lparr>ex_stateGraph := cycleGraph, entryStateId := ''a''\<rparr>"
        "''c''" 1]
  show ?thesis using a b c by simp
qed

lemma isWalk_snoc:
  assumes "isWalk ts p" "p \<noteq> []" "t \<in> set ts" "fromStateId t = last p"
  shows "isWalk ts (p @ [toStateId t])"
  using assms
proof (induction ts p rule: isWalk.induct)
  case (1 ts)
  then show ?case by simp
next
  case (2 ts x)
  then show ?case by (auto simp: list_ex_iff)
next
  case (3 ts x y rest)
  then show ?case by simp
qed

lemma searchStep_walk:
  assumes "searchInv entry tg s" "walkInv ts s"
  shows "walkInv ts (searchStep ts tg s)"
proof (cases "queue s")
  case Nil
  then show ?thesis using assms by (simp add: searchStep_def)
next
  case (Cons it rest)
  obtain sid p where it: "it = (sid, p)" by (cases it)
  have gi: "goodItem entry tg (sid, p)" using assms(1) Cons it by (simp add: searchInv_def)
  have wp: "isWalk ts p" and wr: "list_all (\<lambda>it. isWalk ts (snd it)) rest"
    and wa: "list_all (isWalk ts) (allPaths s)"
    using assms(2) Cons it by (simp_all add: walkInv_def)
  have kid: "isWalk ts (p @ [toStateId t])" if "t \<in> set ts" "fromStateId t = sid" for t
    using isWalk_snoc [OF wp _ that(1)] gi that(2) by (simp add: goodItem_def)
  have kids: "list_all (\<lambda>it. isWalk ts (snd it))
      (map (\<lambda>t. (toStateId t, p @ [toStateId t]))
         (filter (\<lambda>t. toStateId t \<notin> set p \<or> toStateId t = tg) (getTransitionsFrom ts sid)))"
    using kid by (simp add: list_all_iff getTransitionsFrom_def)
  show ?thesis
  proof (cases "sid = tg")
    case True
    then show ?thesis using Cons it wp wr wa by (simp add: searchStep_def walkInv_def)
  next
    case False
    then show ?thesis using Cons it wr wa kids
      by (simp add: searchStep_def walkInv_def Let_def)
  qed
qed

lemma searchLoop_walk:
  "searchInv entry tg s \<Longrightarrow> walkInv ts s \<Longrightarrow> list_all (isWalk ts) (searchLoop ts tg mp s)"
proof (induction ts tg mp s rule: searchLoop.induct)
  case (1 ts tg mp s)
  show ?case
  proof (cases "searchGuard mp s")
    case True
    then show ?thesis
      using 1 searchStep_inv [of entry tg s ts] searchStep_walk [of entry tg s ts]
      by (subst searchLoop.simps) simp
  next
    case False
    then show ?thesis using 1(3)
      by (subst searchLoop.simps) (simp add: walkInv_def)
  qed
qed

lemma findPaths_recorded:
  "list_all (recordedPath ts entry tg) (findPaths entry ts tg mp)"
proof (cases "tg = entry")
  case True
  then show ?thesis by (simp add: findPaths_def recordedPath_def)
next
  case False
  then have inv: "searchInv entry tg (searchInit entry)" by (simp add: searchInit_inv)
  have w0: "walkInv ts (searchInit entry)" by (simp add: walkInv_def searchInit_def)
  have w: "list_all (isWalk ts) (searchLoop ts tg mp (searchInit entry))"
    using inv w0 by (rule searchLoop_walk)
  have g: "list_all (goodPath entry tg) (searchLoop ts tg mp (searchInit entry))"
    using inv by (rule searchLoop_inv)
  have "recordedPath ts entry tg p" if "p \<in> set (searchLoop ts tg mp (searchInit entry))" for p
    using that w g by (simp add: list_all_iff recordedPath_def goodPath_def)
  then show ?thesis using False by (simp add: findPaths_def list_all_iff)
qed

lemma no_recorded_path_no_result:
  assumes "\<forall>p. \<not> recordedPath ts entry tg p"
  shows "findPaths entry ts tg mp = []"
proof (cases "findPaths entry ts tg mp")
  case Nil
  then show ?thesis .
next
  case (Cons p ps)
  then have "recordedPath ts entry tg p"
    using findPaths_recorded [of ts entry tg mp] by simp
  then show ?thesis using assms by blast
qed

lemma isWalk_incoming:
  "isWalk ts p \<Longrightarrow> 2 \<le> length p \<Longrightarrow> \<exists>t \<in> set ts. toStateId t = last p"
proof (induction ts p rule: isWalk.induct)
  case (1 ts)
  then show ?case by simp
next
  case (2 ts x)
  then show ?case by simp
next
  case (3 ts x y rest)
  show ?case
  proof (cases rest)
    case Nil
    then show ?thesis using 3 by (auto simp: list_ex_iff)
  next
    case (Cons z zs)
    then show ?thesis using 3 by simp
  qed
qed

lemma no_incoming_no_path:
  assumes "tg \<noteq> entry" "getTransitionsTo ts tg = []"
  shows "\<not> recordedPath ts entry tg p"
proof
  assume r: "recordedPath ts entry tg p"
  then obtain x xs where p: "p = x # xs" by (cases p) (auto simp: recordedPath_def)
  have "xs \<noteq> []" using r p assms(1) by (auto simp: recordedPath_def)
  then have "2 \<le> length p" using p by (cases xs) auto
  with r obtain t where "t \<in> set ts" "toStateId t = tg"
    using isWalk_incoming [of ts p] by (auto simp: recordedPath_def)
  then show False using assms(2) by (auto simp: getTransitionsTo_def filter_empty_conv)
qed









section \<open>Interactive session controller\<close>

lemma jumpToState_empty_search:
  assumes "graph_getState (ex_stateGraph ex) targetStateId = Some targetState"
    and "explorer_findPathsTo ex targetStateId 1 = []"
  shows "(\<exists>e. jumpToState d targetStateId ex = (Inl e, ex)) \<and>
         currentStateId (snd (jumpToState d targetStateId ex)) = currentStateId ex \<and>
         pathFromRoot (snd (jumpToState d targetStateId ex)) = pathFromRoot ex \<and>
         (\<not> executionLock ex \<and> ex_page ex \<noteq> None \<longrightarrow>
            fst (jumpToState d targetStateId ex) = Inl (PathNotFound targetStateId))"
proof -
  have ne: "targetStateId \<noteq> entryStateId ex"
    using assms(2) by (auto simp: explorer_findPathsTo_def findPaths_def)
  have unlock: "\<not> executionLock ex \<Longrightarrow> ex\<lparr>executionLock := False\<rparr> = ex"
    by simp
  show ?thesis
  proof (cases "executionLock ex")
    case True
    then show ?thesis by (simp add: jumpToState_def)
  next
    case False
    show ?thesis
    proof (cases "ex_page ex")
      case None
      then show ?thesis using False by (simp add: jumpToState_def)
    next
      case (Some b)
      then show ?thesis using False assms ne unlock
        by (simp add: jumpToState_def)
    qed
  qed
qed

text \<open>
  Claim C7. When the target is a known state and no path from the entry state to it is
  recorded in the graph (no sequence of state ids from the entry state to the target
  whose consecutive ids are joined by stored transitions), \<^verbatim>\<open>jumpToState\<close> fails and changes
  nothing in the controller, \<^verbatim>\<open>currentStateId\<close> and \<^verbatim>\<open>pathFromRoot\<close> included; when the
  controller is ready (lock free, browser initialised) the error is \<open>PathNotFound\<close>.
\<close>

theorem jumpToState_no_path:
  assumes "graph_getState (ex_stateGraph ex) targetStateId = Some targetState"
    and "\<forall>p. \<not> recordedPath (graph_transitions (ex_stateGraph ex)) (entryStateId ex)
                 targetStateId p"
  shows "(\<exists>e. jumpToState d targetStateId ex = (Inl e, ex)) \<and>
         currentStateId (snd (jumpToState d targetStateId ex)) = currentStateId ex \<and>
         pathFromRoot (snd (jumpToState d targetStateId ex)) = pathFromRoot ex \<and>
         (\<not> executionLock ex \<and> ex_page ex \<noteq> None \<longrightarrow>
            fst (jumpToState d targetStateId ex) = Inl (PathNotFound targetStateId))"
proof -
  have "explorer_findPathsTo ex targetStateId 1 = []"
    using no_recorded_path_no_result [OF assms(2)] by (simp add: explorer_findPathsTo_def)
  with assms(1) show ?thesis by (rule jumpToState_empty_search)
qed

theorem jumpToState_no_path_witness:
  "graph_getState (ex_stateGraph strandedExplorer) ''state_003'' = Some (plainState ''state_003'') \<and>
   (\<forall>p. \<not> recordedPath (graph_transitions (ex_stateGraph strandedExplorer))
            (entryStateId strandedExplorer) ''state_003'' p) \<and>
   \<not> executionLock strandedExplorer \<and> ex_page strandedExplorer \<noteq> None \<and>
   graph_transitions (ex_stateGraph strandedExplorer) \<noteq> [] \<and>
   jumpToState demoDriver ''state_003'' strandedExplorer =
     (Inl (PathNotFound ''state_003''), strandedExplorer)"
proof -
  have k: "graph_getState (ex_stateGraph strandedExplorer) ''state_003'' =
      Some (plainState ''state_003'')"
    by (simp add: graph_getState_def strandedExplorer_def demoState_def plainState_def)
  have n: "\<forall>p. \<not> recordedPath (graph_transitions (ex_stateGraph strandedExplorer))
            (entryStateId strandedExplorer) ''state_003'' p"
    by (intro allI no_incoming_no_path)
      (simp_all add: strandedExplorer_def demoExplorer_def getTransitionsTo_def
        clickTransition_def)
  have r: "\<not> executionLock strandedExplorer \<and> ex_page strandedExplorer \<noteq> None \<and>
      graph_transitions (ex_stateGraph strandedExplorer) \<noteq> []"
    by (simp add: strandedExplorer_def demoExplorer_def)
  from jumpToState_no_path [OF k n, of demoDriver] r k n
  show ?thesis by (metis fst_conv)
qed

text \<open>
  Claim C8. While the lock is held, \<^verbatim>\<open>executeAction\<close> is rejected with
  \<open>ExecutionInProgress\<close> and the controller is left exactly as it was: explored actions,
  transitions, history, \<^verbatim>\<open>currentStateId\<close>, \<^verbatim>\<open>pathFromRoot\<close>, the page and the emitted events.
\<close>

theorem executeAction_locked:
  assumes "executionLock ex"
  shows "executeAction d actionId ex = (Inl ExecutionInProgress, ex)"
  using assms by (simp add: executeAction_def)

theorem executeAction_locked_witness:
  "executionLock (demoExplorer\<lparr>executionLock := True\<rparr>) \<and>
   executeAction demoDriver ''state_001:click:#go:'' (demoExplorer\<lparr>executionLock := True\<rparr>) =
     (Inl ExecutionInProgress, demoExplorer\<lparr>executionLock := True\<rparr>)"
proof -
  have h: "executionLock (demoExplorer\<lparr>executionLock := True\<rparr>)" by simp
  from executeAction_locked [OF h, of demoDriver "''state_001:click:#go:''"] h
  show ?thesis by simp
qed

section \<open>State identity\<close>

lemma natOfDigits_snoc:
  "natOfDigits (s @ [c]) = 10 * natOfDigits s + (of_char c - 48)"
  by (simp add: natOfDigits_def)

lemma digitChar_val: "d < 10 \<Longrightarrow> of_char (digitChar d) - 48 = (d::nat)"
  by (simp add: digitChar_def)

lemma natOfDigits_stringOfNat: "natOfDigits (stringOfNat n) = n"
proof (induction n rule: stringOfNat.induct)
  case (1 n)
  show ?case
  proof (cases "n < 10")
    case True
    then show ?thesis
      by (subst stringOfNat.simps) (simp add: natOfDigits_def digitChar_val)
  next
    case False
    then have "natOfDigits (stringOfNat n) =
        10 * natOfDigits (stringOfNat (n div 10)) + (of_char (digitChar (n mod 10)) - 48)"
      by (subst stringOfNat.simps) (simp add: natOfDigits_snoc)
    also have "\<dots> = 10 * (n div 10) + n mod 10"
      using 1 False by (simp add: digitChar_val)
    finally show ?thesis by simp
  qed
qed

lemma foldl_zeros:
  "foldl (\<lambda>a c. 10 * a + (of_char c - 48)) (0::nat) (replicate k (CHR ''0'')) = 0"
  by (induction k) simp_all

lemma natOfDigits_padStart: "natOfDigits (padStart len (CHR ''0'') s) = natOfDigits s"
  by (simp add: natOfDigits_def padStart_def foldl_zeros)

lemma mkStateId_inj: "mkStateId a = mkStateId b \<Longrightarrow> a = b"
proof -
  assume "mkStateId a = mkStateId b"
  then have "padStart 3 (CHR ''0'') (stringOfNat a) = padStart 3 (CHR ''0'') (stringOfNat b)"
    by (simp add: mkStateId_def)
  then have "natOfDigits (padStart 3 (CHR ''0'') (stringOfNat a)) =
             natOfDigits (padStart 3 (CHR ''0'') (stringOfNat b))"
    by simp
  then show "a = b" by (simp add: natOfDigits_padStart natOfDigits_stringOfNat)
qed

lemma fresh_id_not_issued: "mkStateId (Suc (mgr_stateCounter m)) \<notin> issuedIds m"
  by (auto simp: issuedIds_def dest: mkStateId_inj)

lemma mapSet_fresh: "state_id s \<notin> state_id ` set xs \<Longrightarrow> mapSet s xs = xs @ [s]"
  by (induction xs) auto

lemma find_snoc:
  "find P (xs @ [x]) = (case find P xs of Some y \<Rightarrow> Some y | None \<Rightarrow> if P x then Some x else None)"
  by (induction xs) auto

lemma captureState_known:
  assumes "findStateByKey pn m (snapshotKey pn snap) = Some x"
  shows "captureState pn snap m = (x, m)"
  using assms by (simp add: captureState_def snapshotKey_def)

lemma captureState_new:
  assumes "mgrInv m" "findStateByKey pn m (snapshotKey pn snap) = None"
    "captureState pn snap m = (s, m')"
  shows "mgr_states m' = mgr_states m @ [s]"
    and "mgr_stateCounter m' = Suc (mgr_stateCounter m)"
    and "state_id s = mkStateId (Suc (mgr_stateCounter m))"
    and "computeStateKey pn (state_url s) (state_domHash s) = snapshotKey pn snap"
    and "mgr_exploredActions m' = (mgr_exploredActions m)(state_id s \<mapsto> {})"
proof -
  let ?s = "\<lparr>state_id = mkStateId (Suc (mgr_stateCounter m)),
             state_url = snap_url snap, state_domHash = snap_domHash snap,
             state_description = snap_description snap,
             state_elements = snap_elements snap, state_timestamp = snap_now snap\<rparr>"
  have s: "s = ?s" and m': "m' = m\<lparr>mgr_stateCounter := Suc (mgr_stateCounter m),
      mgr_states := mapSet ?s (mgr_states m),
      mgr_exploredActions := (mgr_exploredActions m)(state_id ?s \<mapsto> {})\<rparr>"
    using assms(2,3) by (auto simp: captureState_def snapshotKey_def Let_def)
  have "state_id ?s \<notin> state_id ` set (mgr_states m)"
    using assms(1) fresh_id_not_issued [of m] by (auto simp: mgrInv_def)
  then have "mapSet ?s (mgr_states m) = mgr_states m @ [?s]" by (rule mapSet_fresh)
  then show "mgr_states m' = mgr_states m @ [s]" using s m' by simp
  show "mgr_stateCounter m' = Suc (mgr_stateCounter m)" using m' by simp
  show "state_id s = mkStateId (Suc (mgr_stateCounter m))" using s by simp
  show "computeStateKey pn (state_url s) (state_domHash s) = snapshotKey pn snap"
    using s by (simp add: snapshotKey_def)
  show "mgr_exploredActions m' = (mgr_exploredActions m)(state_id s \<mapsto> {})"
    using s m' by simp
qed

lemma issuedIds_mono:
  "mgr_stateCounter m \<le> mgr_stateCounter m' \<Longrightarrow> issuedIds m \<subseteq> issuedIds m'"
  by (auto simp: issuedIds_def)

lemma captureState_inv:
  assumes "mgrInv m" "captureState pn snap m = (s, m')"
  shows "mgrInv m'"
proof (cases "findStateByKey pn m (snapshotKey pn snap)")
  case (Some x)
  then show ?thesis using assms captureState_known [OF Some] by simp
next
  case None
  note n = captureState_new [OF assms(1) None assms(2)]
  have sub: "issuedIds m \<subseteq> issuedIds m'" using n(2) by (simp add: issuedIds_mono)
  have new: "state_id s \<in> issuedIds m'" using n(2,3) by (simp add: issuedIds_def)
  show ?thesis using assms(1) sub new n(1,5) by (auto simp: mgrInv_def)
qed

lemma captureState_finds:
  assumes "mgrInv m" "captureState pn snap m = (s, m')"
  shows "findStateByKey pn m' (snapshotKey pn snap) = Some s"
proof (cases "findStateByKey pn m (snapshotKey pn snap)")
  case (Some x)
  then show ?thesis using assms captureState_known [OF Some] by simp
next
  case None
  note n = captureState_new [OF assms(1) None assms(2)]
  show ?thesis using None n(1,4) by (simp add: findStateByKey_def find_snoc)
qed

lemma captureState_keeps:
  assumes "mgrInv m" "captureState pn snap m = (s, m')" "findStateByKey pn m k = Some x"
  shows "findStateByKey pn m' k = Some x"
proof (cases "findStateByKey pn m (snapshotKey pn snap)")
  case (Some y)
  then show ?thesis using assms captureState_known [OF Some] by simp
next
  case None
  note n = captureState_new [OF assms(1) None assms(2)]
  show ?thesis using assms(3) n(1) by (simp add: findStateByKey_def find_snoc)
qed

lemma captureAll_keeps:
  "mgrInv m \<Longrightarrow>
     mgrInv (snd (captureAll pn snaps m)) \<and>
     (findStateByKey pn m k = Some x \<longrightarrow> findStateByKey pn (snd (captureAll pn snaps m)) k = Some x)"
proof (induction snaps arbitrary: m)
  case Nil
  then show ?case by simp
next
  case (Cons snap snaps)
  obtain s m' where c: "captureState pn snap m = (s, m')" by (cases "captureState pn snap m")
  have inv: "mgrInv m'" using captureState_inv [OF Cons.prems c] .
  have keep: "findStateByKey pn m k = Some x \<Longrightarrow> findStateByKey pn m' k = Some x"
    using captureState_keeps [OF Cons.prems c] .
  show ?case using Cons.IH [OF inv] keep c by (auto split: prod.splits)
qed

lemma newStateManager_inv: "mgrInv newStateManager"
  by (simp add: mgrInv_def newStateManager_def)

text \<open>
  Claim C6. In any run of captures that starts from the empty manager, a capture whose
  snapshot has the url path and the DOM hash of an earlier capture returns the state
  that capture returned (the same object, hence the same id) and leaves the manager as it
  was: no state is created.
\<close>

theorem captureState_idempotent:
  assumes "pathname (snap_url a) = pathname (snap_url b)"
    and "snap_domHash a = snap_domHash b"
    and "captureState pathname a (snd (captureAll pathname before newStateManager)) = (s, m)"
  shows "captureState pathname b (snd (captureAll pathname between m)) =
           (s, snd (captureAll pathname between m))"
proof -
  have inv0: "mgrInv (snd (captureAll pathname before newStateManager))"
    using captureAll_keeps [OF newStateManager_inv] by blast
  have key: "snapshotKey pathname b = snapshotKey pathname a"
    using assms(1,2) by (simp add: snapshotKey_def computeStateKey_def)
  have inv: "mgrInv m" using captureState_inv [OF inv0 assms(3)] .
  have "findStateByKey pathname m (snapshotKey pathname a) = Some s"
    using captureState_finds [OF inv0 assms(3)] .
  then have "findStateByKey pathname (snd (captureAll pathname between m))
      (snapshotKey pathname b) = Some s"
    using captureAll_keeps [OF inv, of pathname between "snapshotKey pathname a" s] key by simp
  then show ?thesis by (rule captureState_known)
qed


lemma mkStateId_first: "mkStateId (Suc 0) = ''state_001''"
  by code_simp

lemma mkStateId_second: "mkStateId (Suc (Suc 0)) = ''state_002''"
  by code_simp

lemmas capture_eval =
  captureState_def computeStateKey_def findStateByKey_def mkStateId_first mkStateId_second
  demoSnapshot_def demoState_def demoPathname_def demoElements_def newStateManager_def Let_def

theorem captureState_idempotent_witness:
  "demoPathname (snap_url (demoSnapshot 0)) =
     demoPathname (snap_url ((demoSnapshot 0)\<lparr>snap_description := ''later'', snap_now := 9\<rparr>)) \<and>
   snap_domHash (demoSnapshot 0) =
     snap_domHash ((demoSnapshot 0)\<lparr>snap_description := ''later'', snap_now := 9\<rparr>) \<and>
   captureState demoPathname (demoSnapshot 0) (snd (captureAll demoPathname [] newStateManager)) =
     (demoState 0, demoManager1) \<and>
   captureState demoPathname ((demoSnapshot 0)\<lparr>snap_description := ''later'', snap_now := 9\<rparr>)
       (snd (captureAll demoPathname [demoSnapshot 1] demoManager1)) =
     (demoState 0, snd (captureAll demoPathname [demoSnapshot 1] demoManager1)) \<and>
   state_id (demoState 0) = ''state_001''"
proof -
  have h1: "demoPathname (snap_url (demoSnapshot 0)) =
     demoPathname (snap_url ((demoSnapshot 0)\<lparr>snap_description := ''later'', snap_now := 9\<rparr>))"
    by simp
  have h2: "snap_domHash (demoSnapshot 0) =
     snap_domHash ((demoSnapshot 0)\<lparr>snap_description := ''later'', snap_now := 9\<rparr>)"
    by simp
  have h3: "captureState demoPathname (demoSnapshot 0)
      (snd (captureAll demoPathname [] newStateManager)) = (demoState 0, demoManager1)"
    by (simp add: capture_eval demoManager1_def)
  have i: "state_id (demoState 0) = ''state_001''" by (simp add: demoState_def)
  from captureState_idempotent [OF h1 h2 h3, of "[demoSnapshot 1]"] h1 h2 h3 i
  show ?thesis by simp
qed

section \<open>Explored-action bookkeeping\<close>

lemma markActionExplored_marks:
  "mgr_exploredActions m stateId \<noteq> None \<Longrightarrow>
   isActionExplored (markActionExplored stateId a m) stateId a"
  by (auto simp: markActionExplored_def isActionExplored_def)

lemma markActionExplored_keeps:
  "isActionExplored m stateId a \<Longrightarrow> isActionExplored (markActionExplored stateId' a' m) stateId a"
  by (auto simp: markActionExplored_def isActionExplored_def split: option.splits)

lemma markActionExplored_dom:
  "dom (mgr_exploredActions (markActionExplored stateId a m)) = dom (mgr_exploredActions m)"
  by (auto simp: markActionExplored_def split: option.splits if_splits)

lemma markActionExplored_inv: "mgrInv m \<Longrightarrow> mgrInv (markActionExplored stateId a m)"
proof -
  assume inv: "mgrInv m"
  have s: "mgr_states (markActionExplored stateId a m) = mgr_states m"
    and c: "mgr_stateCounter (markActionExplored stateId a m) = mgr_stateCounter m"
    by (simp_all add: markActionExplored_def split: option.splits)
  show ?thesis
    using inv unfolding mgrInv_def issuedIds_def markActionExplored_dom s c .
qed

lemma captureState_keeps_explored:
  assumes "mgrInv m" "isActionExplored m stateId a"
  shows "isActionExplored (snd (captureState pn snap m)) stateId a"
proof (cases "findStateByKey pn m (snapshotKey pn snap)")
  case (Some x)
  then show ?thesis using assms(2) captureState_known [OF Some] by simp
next
  case None
  obtain s m' where c: "captureState pn snap m = (s, m')" by (cases "captureState pn snap m")
  note n = captureState_new [OF assms(1) None c]
  have "stateId \<in> dom (mgr_exploredActions m)"
    using assms(2) by (auto simp: isActionExplored_def split: option.splits)
  then have "stateId \<noteq> state_id s"
    using assms(1) n(3) fresh_id_not_issued [of m] by (auto simp: mgrInv_def)
  then show ?thesis using assms(2) c n(5) by (simp add: isActionExplored_def)
qed

lemma applyOps_keeps_explored:
  "mgrInv m \<Longrightarrow> isActionExplored m stateId a \<Longrightarrow>
   isActionExplored (applyOps pn ops m) stateId a"
proof (induction pn ops m rule: applyOps.induct)
  case (1 pathname m)
  then show ?case by simp
next
  case (2 pathname snap ops m)
  obtain s m' where c: "captureState pathname snap m = (s, m')"
    by (cases "captureState pathname snap m")
  have "mgrInv m'" using captureState_inv [OF "2.prems"(1) c] .
  moreover have "isActionExplored m' stateId a"
    using captureState_keeps_explored [OF "2.prems", of pathname snap] c by simp
  ultimately show ?case using "2.IH" c by simp
next
  case (3 pathname stateId' a' ops m)
  then show ?case by (simp add: markActionExplored_inv markActionExplored_keeps)
qed

lemma known_state_has_set:
  "mgrInv m \<Longrightarrow> mgr_getState m stateId = Some st \<Longrightarrow> mgr_exploredActions m stateId \<noteq> None"
proof -
  assume inv: "mgrInv m" and g: "mgr_getState m stateId = Some st"
  from g have "st \<in> set (mgr_states m)" "state_id st = stateId"
    by (auto simp: mgr_getState_def find_Some_iff)
  then have "stateId \<in> state_id ` set (mgr_states m)" by auto
  then show ?thesis using inv by (auto simp: mgrInv_def)
qed

lemma available_needs_state:
  "find P (getAvailableActions ex) = Some item \<Longrightarrow> getCurrentState ex \<noteq> None"
  by (auto simp: getAvailableActions_def split: option.splits)

text \<open>
  Claim C10. Both \<^verbatim>\<open>executeAction\<close> of the controller and \<^verbatim>\<open>exploreAction\<close> of the engine
  mark the action explored before they execute it. When the execution fails (the element
  is not visible, or the execution primitive throws) the call reports the failure
  without an error, the graph's transitions and the history (or the queue) are as before,
  and the action's key is in the explored set of the source state, where every later
  sequence of manager operations leaves it.
\<close>

theorem failed_action_stays_explored:
  "(mgrInv (ex_stateManager ex) \<and> \<not> executionLock ex \<and> ex_page ex = Some b \<and>
    find (\<lambda>a. aa_id a = actionId) (getAvailableActions ex) = Some actionItem \<and>
    fst (drv_perform d (aa_action actionItem) b) \<noteq> Performed
    \<longrightarrow>
      (\<exists>payload. fst (executeAction d actionId ex) = Inr payload \<and> \<not> res_success payload) \<and>
      isActionExplored (ex_stateManager (snd (executeAction d actionId ex)))
        (currentStateId ex) (aa_action actionItem) \<and>
      (\<forall>ops. isActionExplored
         (applyOps pn ops (ex_stateManager (snd (executeAction d actionId ex))))
         (currentStateId ex) (aa_action actionItem)) \<and>
      graph_transitions (ex_stateGraph (snd (executeAction d actionId ex))) =
        graph_transitions (ex_stateGraph ex) \<and>
      explorationHistory (snd (executeAction d actionId ex)) = explorationHistory ex) \<and>
   (mgrInv (exp_stateManager en) \<and> exp_page en = Some b' \<and> fst (drv_goto d' b') \<and>
    isStateKnown (exp_stateManager en) (item_stateId item) \<and>
    fst (drv_perform d' (item_action item) (snd (drv_goto d' b'))) \<noteq> Performed
    \<longrightarrow>
      fst (exploreAction d' item en) = None \<and>
      isActionExplored (exp_stateManager (snd (exploreAction d' item en)))
        (item_stateId item) (item_action item) \<and>
      (\<forall>ops. isActionExplored
         (applyOps pn ops (exp_stateManager (snd (exploreAction d' item en))))
         (item_stateId item) (item_action item)) \<and>
      graph_transitions (exp_stateGraph (snd (exploreAction d' item en))) =
        graph_transitions (exp_stateGraph en) \<and>
      explorationQueue (snd (exploreAction d' item en)) = explorationQueue en)"
proof (intro conjI impI)
  assume a: "mgrInv (ex_stateManager ex) \<and> \<not> executionLock ex \<and> ex_page ex = Some b \<and>
    find (\<lambda>a. aa_id a = actionId) (getAvailableActions ex) = Some actionItem \<and>
    fst (drv_perform d (aa_action actionItem) b) \<noteq> Performed"
  let ?a = "aa_action actionItem"
  let ?m = "markActionExplored (currentStateId ex) ?a (ex_stateManager ex)"
  obtain ok b1 where p: "executeActionInternal d ?a b = (ok, b1)"
    by (cases "executeActionInternal d ?a b")
  have nok: "\<not> ok"
    using a p by (auto simp: executeActionInternal_def split: prod.splits outcome.splits)
  have r: "executeAction d actionId ex =
      (Inr (failedResult (currentStateId ex) ''Action execution failed''),
       ex\<lparr>ex_stateManager := ?m, ex_page := Some b1, executionLock := False\<rparr>)"
    using a p nok by (simp add: executeAction_def Let_def)
  have "getCurrentState ex \<noteq> None" using a available_needs_state by blast
  then have hasset: "mgr_exploredActions (ex_stateManager ex) (currentStateId ex) \<noteq> None"
    using a known_state_has_set [of "ex_stateManager ex" "currentStateId ex"]
    by (auto simp: getCurrentState_def)
  have e: "isActionExplored ?m (currentStateId ex) ?a"
    using markActionExplored_marks [OF hasset] .
  have inv: "mgrInv ?m" using a by (simp add: markActionExplored_inv)
  show "\<exists>payload. fst (executeAction d actionId ex) = Inr payload \<and> \<not> res_success payload"
    using r by (simp add: failedResult_def)
  show "isActionExplored (ex_stateManager (snd (executeAction d actionId ex)))
        (currentStateId ex) ?a"
    using r e by simp
  show "\<forall>ops. isActionExplored
         (applyOps pn ops (ex_stateManager (snd (executeAction d actionId ex))))
         (currentStateId ex) ?a"
    using r applyOps_keeps_explored [OF inv e] by simp
  show "graph_transitions (ex_stateGraph (snd (executeAction d actionId ex))) =
        graph_transitions (ex_stateGraph ex)"
    using r by simp
  show "explorationHistory (snd (executeAction d actionId ex)) = explorationHistory ex"
    using r by simp
next
  assume a: "mgrInv (exp_stateManager en) \<and> exp_page en = Some b' \<and> fst (drv_goto d' b') \<and>
    isStateKnown (exp_stateManager en) (item_stateId item) \<and>
    fst (drv_perform d' (item_action item) (snd (drv_goto d' b'))) \<noteq> Performed"
  let ?a = "item_action item"
  let ?sid = "item_stateId item"
  let ?m = "markActionExplored ?sid ?a (exp_stateManager en)"
  obtain b1 where g: "drv_goto d' b' = (True, b1)"
    using a by (cases "drv_goto d' b'") auto
  obtain ok b2 where p: "executeActionInternal d' ?a b1 = (ok, b2)"
    by (cases "executeActionInternal d' ?a b1")
  have nok: "\<not> ok"
    using a g p by (auto simp: executeActionInternal_def split: prod.splits outcome.splits)
  have r: "exploreAction d' item en =
      (None, en\<lparr>exp_page := Some b1, exp_stateManager := ?m, exp_page := Some b2\<rparr>)"
    using a g p nok by (simp add: exploreAction_def Let_def)
  have hasset: "mgr_exploredActions (exp_stateManager en) ?sid \<noteq> None"
    using a by (auto simp: isStateKnown_def mgrInv_def)
  have e: "isActionExplored ?m ?sid ?a"
    using markActionExplored_marks [OF hasset] .
  have inv: "mgrInv ?m" using a by (simp add: markActionExplored_inv)
  show "fst (exploreAction d' item en) = None" using r by simp
  show "isActionExplored (exp_stateManager (snd (exploreAction d' item en))) ?sid ?a"
    using r e by simp
  show "\<forall>ops. isActionExplored
         (applyOps pn ops (exp_stateManager (snd (exploreAction d' item en)))) ?sid ?a"
    using r applyOps_keeps_explored [OF inv e] by simp
  show "graph_transitions (exp_stateGraph (snd (exploreAction d' item en))) =
        graph_transitions (exp_stateGraph en)"
    using r by simp
  show "explorationQueue (snd (exploreAction d' item en)) = explorationQueue en"
    using r by simp
qed


lemma demoManager_reached:
  "snd (captureAll demoPathname [demoSnapshot 0, demoSnapshot 1] newStateManager) = demoManager"
  by (simp add: capture_eval demoManager_def find_snoc)

lemma demoManager_inv: "mgrInv demoManager"
  using captureAll_keeps [OF newStateManager_inv, of demoPathname "[demoSnapshot 0, demoSnapshot 1]"]
  by (simp only: demoManager_reached)

lemma demo_gone_listed:
  "find (\<lambda>a. aa_id a = ''state_001:click:#gone:'') (getAvailableActions demoExplorer) = Some goneItem"
  by (simp add: getAvailableActions_def getCurrentState_def mgr_getState_def demoExplorer_def
      demoManager_def demoState_def demoElements_def demoButton_def generateActionsForElement_def
      availableActionFor_def getActionKey_def isActionExplored_def isActionSkipped_def
      goneItem_def clickOn_def Let_def)

theorem failed_action_stays_explored_witness:
  "mgrInv (ex_stateManager demoExplorer) \<and> \<not> executionLock demoExplorer \<and>
   ex_page demoExplorer = Some 0 \<and>
   find (\<lambda>a. aa_id a = ''state_001:click:#gone:'') (getAvailableActions demoExplorer) =
     Some goneItem \<and>
   fst (drv_perform demoDriver (aa_action goneItem) 0) \<noteq> Performed \<and>
   isActionExplored
     (ex_stateManager (snd (executeAction demoDriver ''state_001:click:#gone:'' demoExplorer)))
     (currentStateId demoExplorer) (aa_action goneItem) \<and>
   explorationHistory (snd (executeAction demoDriver ''state_001:click:#gone:'' demoExplorer)) = [] \<and>
   mgrInv (exp_stateManager demoEngine) \<and> exp_page demoEngine = Some 0 \<and>
   fst (drv_goto demoDriver 0) \<and>
   isStateKnown (exp_stateManager demoEngine) (item_stateId boomItem) \<and>
   fst (drv_perform demoDriver (item_action boomItem) (snd (drv_goto demoDriver 0))) \<noteq> Performed \<and>
   fst (exploreAction demoDriver boomItem demoEngine) = None \<and>
   isActionExplored (exp_stateManager (snd (exploreAction demoDriver boomItem demoEngine)))
     (item_stateId boomItem) (item_action boomItem) \<and>
   graph_transitions (exp_stateGraph (snd (exploreAction demoDriver boomItem demoEngine))) = []"
proof -
  have h1: "mgrInv (ex_stateManager demoExplorer) \<and> \<not> executionLock demoExplorer \<and>
     ex_page demoExplorer = Some 0 \<and>
     find (\<lambda>a. aa_id a = ''state_001:click:#gone:'') (getAvailableActions demoExplorer) =
       Some goneItem \<and>
     fst (drv_perform demoDriver (aa_action goneItem) 0) \<noteq> Performed"
    using demoManager_inv demo_gone_listed
    by (simp add: demoExplorer_def demoDriver_def goneItem_def clickOn_def)
  have h2: "mgrInv (exp_stateManager demoEngine) \<and> exp_page demoEngine = Some 0 \<and>
     fst (drv_goto demoDriver 0) \<and>
     isStateKnown (exp_stateManager demoEngine) (item_stateId boomItem) \<and>
     fst (drv_perform demoDriver (item_action boomItem) (snd (drv_goto demoDriver 0))) \<noteq> Performed"
    using demoManager_inv
    by (simp add: demoEngine_def demoDriver_def boomItem_def clickOn_def isStateKnown_def
        demoManager_def demoState_def)
  have e1: "explorationHistory demoExplorer = []" by (simp add: demoExplorer_def)
  have e2: "graph_transitions (exp_stateGraph demoEngine) = []" by (simp add: demoEngine_def)
  from failed_action_stays_explored
    [of demoExplorer 0 "''state_001:click:#gone:''" goneItem demoDriver demoPathname
        demoEngine 0 demoDriver boomItem]
    h1 h2 e1 e2
  show ?thesis by simp
qed

section \<open>Exploration engine\<close>

lemma stringOfNat_one: "stringOfNat (Suc 0) = ''1''"
  by code_simp

lemma stringOfNat_two: "stringOfNat (Suc (Suc 0)) = ''2''"
  by code_simp

lemmas engine_eval =
  seedExploration_def newExplorer_def exploreAction_def exp_captureCurrentState_def
  queueActionsForState_def getUnexploredActions_def isActionExplored_def markActionExplored_def
  generateActionsForElement_def getActionKey_def executeActionInternal_def addState_def
  addTransition_def setEntryState_def graph_has_def sameTransition_def newStateGraph_def
  demoDriver_def demoButton_def demoQueueItem_def clickOn_def capture_eval find_snoc

lemma demoSeeded_eq:
  "demoSeeded =
     \<lparr>exp_page = Some 0, exp_inputValues = [(''text'', ''Test item'')],
      exp_stateManager = demoManager1,
      exp_stateGraph = \<lparr>graph_states = [demoState 0], graph_transitions = [],
                        graph_entryStateId = ''state_001''\<rparr>,
      explorationQueue =
        [demoQueueItem ''state_001'' ''#go'' [''state_001''],
         demoQueueItem ''state_001'' ''#also'' [''state_001''],
         demoQueueItem ''state_001'' ''#gone'' [''state_001''],
         demoQueueItem ''state_001'' ''#boom'' [''state_001'']]\<rparr>"
  by (simp add: demoSeeded_def engine_eval demoManager1_def)

lemma demoAfterGo_eq:
  "demoAfterGo =
     \<lparr>exp_page = Some 1, exp_inputValues = [(''text'', ''Test item'')],
      exp_stateManager =
        \<lparr>mgr_states = [demoState 0, demoState 1], mgr_stateCounter = 2,
         mgr_exploredActions = [''state_001'' \<mapsto> {''click:#go:''}, ''state_002'' \<mapsto> {}]\<rparr>,
      exp_stateGraph =
        \<lparr>graph_states = [demoState 0, demoState 1],
         graph_transitions =
           [\<lparr>trans_id = ''trans_1'', fromStateId = ''state_001'', toStateId = ''state_002'',
             action = clickOn ''#go''\<rparr>],
         graph_entryStateId = ''state_001''\<rparr>,
      explorationQueue =
        [demoQueueItem ''state_001'' ''#also'' [''state_001''],
         demoQueueItem ''state_001'' ''#gone'' [''state_001''],
         demoQueueItem ''state_001'' ''#boom'' [''state_001''],
         demoQueueItem ''state_002'' ''#stay'' [''state_001'', ''state_002'']]\<rparr>"
  by (simp add: demoAfterGo_def demoSeeded_eq engine_eval demoManager1_def stringOfNat_one
      fun_upd_twist)

text \<open>
  Claim C3 fails on the code. The click on \<^verbatim>\<open>#go\<close> observes the second state for the first
  time and queues its action. The click on \<^verbatim>\<open>#also\<close> reaches the same state, which the
  manager already knows, and its action is queued once more: \<^verbatim>\<open>exploreAction\<close> tests
  whether the resulting state differs from the source state, not whether it is new.
\<close>

theorem known_state_queued_again:
  "isStateKnown (exp_stateManager demoAfterGo) ''state_002'' \<and>
   hd (explorationQueue demoAfterGo) = demoQueueItem ''state_001'' ''#also'' [''state_001''] \<and>
   explorationQueue demoAfterAlso =
     [demoQueueItem ''state_001'' ''#gone'' [''state_001''],
      demoQueueItem ''state_001'' ''#boom'' [''state_001''],
      demoQueueItem ''state_002'' ''#stay'' [''state_001'', ''state_002''],
      demoQueueItem ''state_002'' ''#stay'' [''state_001'', ''state_002'']]"
  by (simp add: demoAfterAlso_def demoAfterGo_eq engine_eval isStateKnown_def stringOfNat_one
      stringOfNat_two)

section \<open>Session persistence\<close>

lemma load_unversioned_object:
  assumes "map_of kvs ''version'' = None \<or> map_of kvs ''version'' = Some (JNum 0)"
  shows "load env (Parsed (JObj kvs)) =
     Inr (JObj
       [(''version'', JNum 1),
        (''id'', jsOr (getProp (JObj kvs) ''id'') (JStr (env_sessionId env))),
        (''appUrl'', jsOr (getProp (JObj kvs) ''appUrl'') (JStr [])),
        (''createdAt'', jsOr (getProp (JObj kvs) ''createdAt'') (JStr (env_createdNow env))),
        (''lastUpdatedAt'', JStr (env_updatedNow env)),
        (''currentStateId'', jsOr (getProp (JObj kvs) ''currentStateId'') (JStr [])),
        (''entryStateId'', jsOr (getProp (JObj kvs) ''entryStateId'') (JStr [])),
        (''stateGraph'', getProp (JObj kvs) ''stateGraph''),
        (''skippedActions'', jsOr (getProp (JObj kvs) ''skippedActions'') (JObj [])),
        (''explorationHistory'', jsOr (getProp (JObj kvs) ''explorationHistory'') (JArr []))])"
  using assms by (auto simp: load_def migrate_def nullish_def CURRENT_VERSION_def Let_def)

text \<open>
  Claim C2 fails on the code. For the stored payload \<^verbatim>\<open>{}\<close>, which has no version, \<^verbatim>\<open>load\<close>
  returns a version-1 session with the fresh id, the current timestamps, an empty skip
  map and an empty history, but its \<^verbatim>\<open>stateGraph\<close> is \<^verbatim>\<open>undefined\<close>: \<^verbatim>\<open>migrate\<close> gives that
  field alone no default.
\<close>

theorem load_empty_payload_has_no_graph:
  "load env (Parsed (JObj [])) =
     Inr (JObj
       [(''version'', JNum 1),
        (''id'', JStr (env_sessionId env)),
        (''appUrl'', JStr []),
        (''createdAt'', JStr (env_createdNow env)),
        (''lastUpdatedAt'', JStr (env_updatedNow env)),
        (''currentStateId'', JStr []),
        (''entryStateId'', JStr []),
        (''stateGraph'', JUndefined),
        (''skippedActions'', JObj []),
        (''explorationHistory'', JArr [])])"
  by (simp add: load_unversioned_object jsOr_def)

end
